theory Spec2Isabelle
  imports Main "HOL-Library.Word" "HOL-Library.AList"
begin

section \<open>The state aggregator of erigon-lib/state/aggregator.go\<close>

text \<open>
  A shallow embedding of the parts of \<^verbatim>\<open>erigon-lib/state/aggregator.go\<close> that
  coordinate step arithmetic, file building, merging, pruning and closing.
  Go's \<^verbatim>\<open>uint64\<close> is \<open>64 word\<close>: \<open>+\<close>, \<open>-\<close> and \<open>*\<close> wrap around as in Go.
  A Go panic is a value \<open>Inl p\<close> of a sum type; Go's integer division panics on a
  zero divisor, which the model writes out.
\<close>

type_synonym u64 = "64 word"

subsection \<open>Errors and panics\<close>

text \<open>
  Go errors. \<open>Wrapped\<close> is \<^verbatim>\<open>fmt.Errorf("...: %w", err)\<close>; \<open>errors_Is\<close> follows the
  chain of wrapped errors as \<^verbatim>\<open>errors.Is\<close> does.
\<close>

datatype err = Canceled | ErrStopped | ErrOther string | Wrapped string err

fun errors_Is :: "err \<Rightarrow> err \<Rightarrow> bool" where
  "errors_Is (Wrapped m e) target = (Wrapped m e = target \<or> errors_Is e target)"
| "errors_Is e target = (e = target)"

datatype panic =
    PanicMsg string
  | PanicErr err
  | DivideByZero
  | NilDereference
  | IndexOutOfRange
  | NonPositiveTicker

subsection \<open>Steps and txNums\<close>

text \<open>
  \<^verbatim>\<open>func firstTxNumOfStep(step, size uint64) uint64 { return step * size }\<close>
  \<^verbatim>\<open>func lastTxNumOfStep(step, size uint64) uint64 { return firstTxNumOfStep(step+1, size) - 1 }\<close>
\<close>

definition firstTxNumOfStep :: "u64 \<Rightarrow> u64 \<Rightarrow> u64" where
  "firstTxNumOfStep step sz = step * sz"

definition lastTxNumOfStep :: "u64 \<Rightarrow> u64 \<Rightarrow> u64" where
  "lastTxNumOfStep step sz = firstTxNumOfStep (step + 1) sz - 1"


subsection \<open>Domains\<close>

text \<open>
  \<^verbatim>\<open>kv.Domain\<close> (a \<^verbatim>\<open>uint16\<close>) indexes the array \<^verbatim>\<open>[kv.DomainLen]*Domain\<close>. The
  four state domains are named in aggregator.go; any other value of the type is
  \<open>OtherDomain n\<close>, \<open>n\<close> its number. The indexes of the array, in the order of
  \<^verbatim>\<open>for id, d := range a.d\<close>, are the list \<open>domainIds\<close> of the aggregator below: a value
  that is not in the list is \<^verbatim>\<open>kv.DomainLen\<close> or beyond.
\<close>

datatype Domain = AccountsDomain | StorageDomain | CodeDomain | CommitmentDomain | OtherDomain nat

subsection \<open>The aggregator\<close>

text \<open>
  The fields of \<^verbatim>\<open>type Aggregator struct\<close> that the functions below read or write.
  \<open>ctxCancel\<close> is the nil-able cancel function (\<open>None\<close> is nil), \<open>ctxDone\<close> says that
  \<^verbatim>\<open>a.ctx\<close> has been cancelled. \<open>domainIds\<close> lists the indexes of the array \<^verbatim>\<open>a.d\<close> in
  order and \<open>iisLen\<close> is \<^verbatim>\<open>len(a.iis)\<close>. \<open>leakDetector\<close> holds the ids registered with
  \<^verbatim>\<open>a.leakDetector\<close>. \<open>files\<close> stands for the dirty and visible file sets of all domains
  and inverted indices, whose types live in other files of the package. The locks and the
  wait group \<^verbatim>\<open>a.wg\<close> are not part of the state: every function below is one
  uninterrupted run.
\<close>

record 'f Aggregator =
  aggregationStep :: u64
  visibleFilesMinimaxTxNum :: u64
  commitmentValuesTransform :: bool
  buildingFiles :: bool
  mergingFiles :: bool
  ctxCancel :: "unit option"
  ctxDone :: bool
  produce :: bool
  domainIds :: "Domain list"
  iisLen :: nat
  leakDetector :: "u64 set"
  aggRoTxAutoIncrement :: u64
  files :: 'f

text \<open>\<^verbatim>\<open>func (a *Aggregator) StepSize() uint64 { return a.aggregationStep }\<close>\<close>

definition StepSize :: "'f Aggregator \<Rightarrow> u64" where
  "StepSize a = aggregationStep a"

text \<open>
  \<^verbatim>\<open>func (a *Aggregator) FirstTxNumOfStep(step uint64) uint64 {
       return firstTxNumOfStep(step, a.StepSize()) }\<close>
\<close>

definition FirstTxNumOfStep :: "'f Aggregator \<Rightarrow> u64 \<Rightarrow> u64" where
  "FirstTxNumOfStep a step = firstTxNumOfStep step (StepSize a)"

text \<open>
  The txNum range \<^verbatim>\<open>buildFiles(ctx, step)\<close> collates and integrates as the files of
  \<open>step\<close>, that is of \<open>(fromStep, toStep) = (step, step + 1)\<close>:
  \<^verbatim>\<open>txFrom = a.FirstTxNumOfStep(step); txTo = a.FirstTxNumOfStep(step + 1)\<close>.
\<close>

definition buildFiles_txRange :: "'f Aggregator \<Rightarrow> u64 \<Rightarrow> u64 \<times> u64" where
  "buildFiles_txRange a step = (FirstTxNumOfStep a step, FirstTxNumOfStep a (step + 1))"

text \<open>
  Modelled from the spec: the txNum range of a file identified by \<open>(fromStep, toStep)\<close>.
  What is missing is the code that gives a file its range: the file items of the domains
  and inverted indices, made when the snapshot directory is scanned and when files are
  merged, are declared in other files of the package. The spec says that a file is
  identified by \<open>(fromStep, toStep)\<close>, meaning the half-open txNum range from
  \<open>fromStep * stepSize\<close> to \<open>toStep * stepSize\<close>. The bounds are natural numbers, as the
  products of the spec are; the second bound is excluded.
\<close>

definition fileTxNumRange :: "nat \<Rightarrow> nat \<Rightarrow> nat \<Rightarrow> nat \<times> nat" where
  "fileTxNumRange stepSize fromStep toStep = (fromStep * stepSize, toStep * stepSize)"

text \<open>
  Modelled from the spec: \<open>t\<close> is a txNum of the file identified by \<open>(fromStep, toStep)\<close>,
  that is, of its half-open range.
\<close>

definition inFileTxNumRange :: "nat \<Rightarrow> nat \<Rightarrow> nat \<Rightarrow> nat \<Rightarrow> bool" where
  "inFileTxNumRange stepSize fromStep toStep t =
     (fst (fileTxNumRange stepSize fromStep toStep) \<le> t
      \<and> t < snd (fileTxNumRange stepSize fromStep toStep))"


text \<open>Go's \<^verbatim>\<open>x / y\<close> on \<^verbatim>\<open>uint64\<close>: a run-time panic when \<open>y\<close> is zero.\<close>

definition go_div :: "u64 \<Rightarrow> u64 \<Rightarrow> panic + u64" where
  "go_div x y = (if y = 0 then Inl DivideByZero else Inr (x div y))"

subsection \<open>Merge ranges\<close>

text \<open>
  \<^verbatim>\<open>MergeRange\<close> and \<^verbatim>\<open>DomainRanges\<close> are declared in another file of the package;
  these are the fields aggregator.go reads and writes. \<open>zeroMergeRange\<close> is the Go zero
  value \<^verbatim>\<open>MergeRange{}\<close>. The other fields of \<^verbatim>\<open>DomainRanges\<close> (history and index
  ranges, name, step size) are \<open>dr_rest\<close>.
\<close>

record MergeRange =
  needMerge :: bool
  mr_from :: u64
  mr_to :: u64

definition zeroMergeRange :: MergeRange where
  "zeroMergeRange = \<lparr>needMerge = False, mr_from = 0, mr_to = 0\<rparr>"

record 'h DomainRanges =
  dr_values :: MergeRange
  dr_rest :: 'h

text \<open>
  \<^verbatim>\<open>type RangesV3 struct { domain [kv.DomainLen]DomainRanges; invertedIndex []*MergeRange }\<close>
\<close>

record 'h RangesV3 =
  r_domain :: "Domain \<Rightarrow> 'h DomainRanges"
  r_invertedIndex :: "MergeRange option list"

subsection \<open>Read handles\<close>

text \<open>
  \<^verbatim>\<open>DomainRoTx\<close> and \<^verbatim>\<open>InvertedIndexRoTx\<close> are declared in other files. Each method
  and field that aggregator.go uses is a field of the record: a parameter of the model.
  \<open>'db\<close> is the state of the DB transaction \<^verbatim>\<open>tx\<close>; a method that writes returns the
  new state. A \<^verbatim>\<open>Close\<close> method acts on the shared file sets \<open>'f\<close>.
\<close>

record ('f, 'db, 'h, 'ds) DomainRoTx =
  files_EndTxNum :: u64
  files_LatestMergedRange :: MergeRange
  d_filenameBase :: string
  d_findMergeRange :: "u64 \<Rightarrow> u64 \<Rightarrow> 'h DomainRanges"
  lookupDirtyFileByItsRange :: "u64 \<Rightarrow> u64 \<Rightarrow> bool"
  CanPruneUntil :: "'db \<Rightarrow> u64 \<Rightarrow> bool"
  d_Prune :: "'db \<Rightarrow> u64 \<Rightarrow> u64 \<Rightarrow> u64 \<Rightarrow> u64 \<Rightarrow> ('ds option \<times> err option) \<times> 'db"
  d_Close :: "'f \<Rightarrow> 'f"

record ('f, 'db, 'is) InvertedIndexRoTx =
  ii_filenameBase :: string
  ii_findMergeRange :: "u64 \<Rightarrow> u64 \<Rightarrow> MergeRange option"
  ii_CanPrune :: "'db \<Rightarrow> bool"
  ii_Prune :: "'db \<Rightarrow> u64 \<Rightarrow> u64 \<Rightarrow> u64 \<Rightarrow> ('is option \<times> err option) \<times> 'db"
  ii_Close :: "'f \<Rightarrow> 'f"

text \<open>
  \<^verbatim>\<open>type AggregatorRoTx struct { a *Aggregator; d [kv.DomainLen]*DomainRoTx;
       iis []*InvertedIndexRoTx; id uint64; _leakID uint64 }\<close>
  \<open>rotx_a\<close> is the pointer \<^verbatim>\<open>at.a\<close>: \<open>None\<close> is nil, \<open>Some ()\<close> points to the aggregator,
  whose current state the functions below take as the argument \<open>agg\<close>. The array
  \<^verbatim>\<open>at.d\<close> is the function \<open>rotx_d\<close> on the indexes \<open>domainIds agg\<close>; as
  \<^verbatim>\<open>BeginFilesRo\<close> fills every entry, no entry is nil.
\<close>

record ('f, 'db, 'h, 'ds, 'is) AggregatorRoTx =
  rotx_a :: "unit option"
  rotx_d :: "Domain \<Rightarrow> ('f, 'db, 'h, 'ds) DomainRoTx"
  rotx_iis :: "('f, 'db, 'is) InvertedIndexRoTx list"
  rotx_id :: u64
  rotx_leakID :: u64

text \<open>
  \<^verbatim>\<open>func (at *AggregatorRoTx) StepSize() uint64 { return at.a.StepSize() }\<close>:
  a nil \<^verbatim>\<open>at.a\<close> is dereferenced.
\<close>

definition rotx_StepSize ::
  "'f Aggregator \<Rightarrow> ('f, 'db, 'h, 'ds, 'is) AggregatorRoTx \<Rightarrow> panic + u64" where
  "rotx_StepSize agg at =
     (case rotx_a at of None \<Rightarrow> Inl NilDereference | Some _ \<Rightarrow> Inr (StepSize agg))"

subsection \<open>TxNumsInFiles and StepsInFiles\<close>

text \<open>
  \<^verbatim>\<open>at.d[domain]\<close> for a \<^verbatim>\<open>kv.Domain\<close> that the caller supplies: the array
  \<^verbatim>\<open>[kv.DomainLen]*DomainRoTx\<close> has the indexes \<open>domainIds agg\<close> (the arrays \<^verbatim>\<open>a.d\<close>
  and \<^verbatim>\<open>at.d\<close> have the same length), and for any other value Go panics: index out of range.
\<close>

definition rotx_d_index ::
  "'f Aggregator \<Rightarrow> ('f, 'db, 'h, 'ds, 'is) AggregatorRoTx \<Rightarrow> Domain
   \<Rightarrow> panic + ('f, 'db, 'h, 'ds) DomainRoTx" where
  "rotx_d_index agg at domain =
     (if domain \<in> set (domainIds agg) then Inr (rotx_d at domain) else Inl IndexOutOfRange)"

text \<open>
  \<^verbatim>\<open>func (at *AggregatorRoTx) TxNumsInFiles(entitySet ...kv.Domain) (minTxNum uint64) {
      if len(entitySet) == 0 { panic("assert: missed arguments") }
      for i, domain := range entitySet {
          domainEnd := at.d[domain].files.EndTxNum()
          if i == 0 || domainEnd < minTxNum { minTxNum = domainEnd }
      }
      return minTxNum }\<close>
  The loop is \<open>TxNumsInFiles_loop\<close>, with \<open>first\<close> for \<open>i == 0\<close>; it stops at the first
  domain that is not an index of \<^verbatim>\<open>at.d\<close>.
\<close>

fun TxNumsInFiles_loop ::
  "'f Aggregator \<Rightarrow> ('f, 'db, 'h, 'ds, 'is) AggregatorRoTx \<Rightarrow> bool \<Rightarrow> u64 \<Rightarrow> Domain list
   \<Rightarrow> panic + u64" where
  "TxNumsInFiles_loop agg at first minTxNum [] = Inr minTxNum"
| "TxNumsInFiles_loop agg at first minTxNum (domain # rest) =
     (case rotx_d_index agg at domain of
        Inl p \<Rightarrow> Inl p
      | Inr d \<Rightarrow>
          (let domainEnd = files_EndTxNum d
           in TxNumsInFiles_loop agg at False
                (if first \<or> domainEnd < minTxNum then domainEnd else minTxNum) rest))"

definition TxNumsInFiles ::
  "'f Aggregator \<Rightarrow> ('f, 'db, 'h, 'ds, 'is) AggregatorRoTx \<Rightarrow> Domain list \<Rightarrow> panic + u64" where
  "TxNumsInFiles agg at entitySet =
     (if length entitySet = 0 then Inl (PanicMsg ''assert: missed arguments'')
      else TxNumsInFiles_loop agg at True 0 entitySet)"

text \<open>
  \<^verbatim>\<open>func (at *AggregatorRoTx) StepsInFiles(entitySet ...kv.Domain) uint64 {
      txNumInFiles := at.TxNumsInFiles(entitySet...)
      if txNumInFiles > 0 { txNumInFiles-- }
      return txNumInFiles / at.StepSize() }\<close>
\<close>

definition StepsInFiles ::
  "'f Aggregator \<Rightarrow> ('f, 'db, 'h, 'ds, 'is) AggregatorRoTx \<Rightarrow> Domain list \<Rightarrow> panic + u64" where
  "StepsInFiles agg at entitySet =
     (case TxNumsInFiles agg at entitySet of
        Inl p \<Rightarrow> Inl p
      | Inr txNumInFiles \<Rightarrow>
          (let txNumInFiles' = (if txNumInFiles > 0 then txNumInFiles - 1 else txNumInFiles)
           in case rotx_StepSize agg at of
                Inl p \<Rightarrow> Inl p
              | Inr stepSize \<Rightarrow> go_div txNumInFiles' stepSize))"

subsection \<open>BuildFilesInBackground: the caller's part\<close>

text \<open>
  What \<^verbatim>\<open>BuildFilesInBackground(txNum)\<close> does before it starts its goroutine. The result
  says whether the returned channel \<^verbatim>\<open>fin\<close> is already closed (\<open>FinClosed\<close>: no goroutine
  was started) or a goroutine was started to build from \<open>step\<close> (\<open>JobStarted step\<close>).
  \<^verbatim>\<open>a.buildingFiles.CompareAndSwap(false, true)\<close> fails when the flag is already true.
  \<^verbatim>\<open>step := a.visibleFilesMinimaxTxNum.Load() / a.StepSize()\<close> panics on a zero step size.
\<close>

datatype bg_start = FinClosed | JobStarted u64

definition BuildFilesInBackground :: "'f Aggregator \<Rightarrow> u64 \<Rightarrow> panic + ('f Aggregator \<times> bg_start)" where
  "BuildFilesInBackground a txNum =
     (if \<not> produce a then Inr (a, FinClosed)
      else if txNum + 1 \<le> visibleFilesMinimaxTxNum a + aggregationStep a then Inr (a, FinClosed)
      else if buildingFiles a then Inr (a, FinClosed)
      else (case go_div (visibleFilesMinimaxTxNum a) (StepSize a) of
              Inl p \<Rightarrow> Inl p
            | Inr step \<Rightarrow> Inr (a\<lparr>buildingFiles := True\<rparr>, JobStarted step)))"

subsection \<open>The integrity check of a domain file\<close>

text \<open>
  \<^verbatim>\<open>%d\<close> of \<^verbatim>\<open>fmt.Sprintf\<close> on a \<^verbatim>\<open>uint64\<close>: the decimal digits.
\<close>

definition digit_char :: "nat \<Rightarrow> char" where
  "digit_char n = ''0123456789'' ! n"

function dec_nat :: "nat \<Rightarrow> string" where
  "dec_nat n = (if n < 10 then [digit_char n] else dec_nat (n div 10) @ [digit_char (n mod 10)])"
  by pat_completeness auto
termination
  by (relation "measure id") auto

declare dec_nat.simps [simp del]

definition fmt_d :: "u64 \<Rightarrow> string" where
  "fmt_d x = dec_nat (unat x)"

text \<open>
  \<^verbatim>\<open>filepath.Join(dir, name)\<close> for a directory path that is not empty and already clean.
\<close>

definition filepath_Join :: "string \<Rightarrow> string \<Rightarrow> string" where
  "filepath_Join dir name = dir @ ''/'' @ name"

record Dirs =
  SnapDomain :: string

text \<open>
  \<^verbatim>\<open>func commitmentFileMustExist(dirs datadir.Dirs, fromStep, toStep uint64) bool {
      fPath := filepath.Join(dirs.SnapDomain,
                  fmt.Sprintf("v1-%s.%d-%d.kv", kv.CommitmentDomain, fromStep, toStep))
      exists, err := dir.FileExist(fPath)
      if err != nil { panic(err) }
      return exists }\<close>
  \<open>FileExist\<close> is \<^verbatim>\<open>dir.FileExist\<close> on the disk as it is, and \<open>domainString\<close> is the
  \<^verbatim>\<open>String\<close> method of \<^verbatim>\<open>kv.Domain\<close>; both are declared outside aggregator.go.
\<close>

definition commitmentFilePath :: "(Domain \<Rightarrow> string) \<Rightarrow> Dirs \<Rightarrow> u64 \<Rightarrow> u64 \<Rightarrow> string" where
  "commitmentFilePath domainString dirs fromStep toStep =
     filepath_Join (SnapDomain dirs)
       (''v1-'' @ domainString CommitmentDomain @ ''.'' @ fmt_d fromStep @ ''-'' @ fmt_d toStep @ ''.kv'')"

definition commitmentFileMustExist ::
  "(string \<Rightarrow> err + bool) \<Rightarrow> (Domain \<Rightarrow> string) \<Rightarrow> Dirs \<Rightarrow> u64 \<Rightarrow> u64 \<Rightarrow> panic + bool" where
  "commitmentFileMustExist FileExist domainString dirs fromStep toStep =
     (let fPath = commitmentFilePath domainString dirs fromStep toStep
      in case FileExist fPath of
           Inl e \<Rightarrow> Inl (PanicErr e)
         | Inr exists \<Rightarrow> Inr exists)"

text \<open>
  \<^verbatim>\<open>func domainIntegrityCheck(name kv.Domain, dirs datadir.Dirs, fromStep, toStep uint64) bool {
      switch name {
      case kv.AccountsDomain, kv.StorageDomain, kv.CodeDomain:
          if toStep-fromStep > 1 { // only recently built files
              return true
          }
          return commitmentFileMustExist(dirs, fromStep, toStep)
      default:
          return true
      } }\<close>
\<close>

definition domainIntegrityCheck ::
  "(string \<Rightarrow> err + bool) \<Rightarrow> (Domain \<Rightarrow> string) \<Rightarrow> Domain \<Rightarrow> Dirs \<Rightarrow> u64 \<Rightarrow> u64 \<Rightarrow> panic + bool" where
  "domainIntegrityCheck FileExist domainString name dirs fromStep toStep =
     (if name = AccountsDomain \<or> name = StorageDomain \<or> name = CodeDomain then
        (if toStep - fromStep > 1 then Inr True
         else commitmentFileMustExist FileExist domainString dirs fromStep toStep)
      else Inr True)"

subsection \<open>findMergeRange\<close>

text \<open>
  The loop of \<^verbatim>\<open>findMergeRange\<close> that runs when the Commitment domain proposes a values
  merge \<open>cr\<close>:
  \<^verbatim>\<open>for k, dr := range &r.domain {
      kd := kv.Domain(k)
      if kd == kv.CommitmentDomain || cr.values.Equal(&dr.values) { continue }
      if !dr.values.needMerge || cr.values.to < dr.values.from {
          if mf := at.d[kd].lookupDirtyFileByItsRange(cr.values.from, cr.values.to); mf != nil {
              r.domain[k].values = MergeRange{}
              continue
          }
          restorePrevRange = true
      } }\<close>
  \<open>Equal\<close> is the method \<^verbatim>\<open>MergeRange.Equal\<close>, declared in another file.
\<close>

fun couple_loop ::
  "(MergeRange \<Rightarrow> MergeRange \<Rightarrow> bool) \<Rightarrow> ('f, 'db, 'h, 'ds, 'is) AggregatorRoTx \<Rightarrow> 'h DomainRanges
   \<Rightarrow> Domain list \<Rightarrow> (Domain \<Rightarrow> 'h DomainRanges) \<times> bool \<Rightarrow> (Domain \<Rightarrow> 'h DomainRanges) \<times> bool" where
  "couple_loop Equal at cr [] (r, restorePrevRange) = (r, restorePrevRange)"
| "couple_loop Equal at cr (k # ks) (r, restorePrevRange) =
     (let dr = r k in
      if k = CommitmentDomain \<or> Equal (dr_values cr) (dr_values dr)
      then couple_loop Equal at cr ks (r, restorePrevRange)
      else if \<not> needMerge (dr_values dr) \<or> mr_to (dr_values cr) < mr_from (dr_values dr)
      then (if lookupDirtyFileByItsRange (rotx_d at k) (mr_from (dr_values cr)) (mr_to (dr_values cr))
            then couple_loop Equal at cr ks (r(k := dr\<lparr>dr_values := zeroMergeRange\<rparr>), restorePrevRange)
            else couple_loop Equal at cr ks (r, True))
      else couple_loop Equal at cr ks (r, restorePrevRange))"

text \<open>
  \<^verbatim>\<open>if restorePrevRange { for k, dr := range &r.domain { r.domain[k].values = MergeRange{} } }\<close>
\<close>

fun cancel_values :: "Domain list \<Rightarrow> (Domain \<Rightarrow> 'h DomainRanges) \<Rightarrow> (Domain \<Rightarrow> 'h DomainRanges)" where
  "cancel_values [] r = r"
| "cancel_values (k # ks) r = cancel_values ks (r(k := (r k)\<lparr>dr_values := zeroMergeRange\<rparr>))"

text \<open>
  \<^verbatim>\<open>findMergeRange\<close> from the point where the end bound is fixed: every domain proposes
  with \<open>maxEndTxNum\<close>, the Commitment coupling holds or cancels values merges, and every
  inverted index proposes with the same \<open>maxEndTxNum\<close>. \<^verbatim>\<open>r.invertedIndex\<close> has
  \<^verbatim>\<open>len(at.a.iis)\<close> entries; writing beyond it panics. The debug lines of the coupling
  are left out.
\<close>

definition findMergeRange_propose ::
  "(MergeRange \<Rightarrow> MergeRange \<Rightarrow> bool) \<Rightarrow> 'f Aggregator \<Rightarrow> ('f, 'db, 'h, 'ds, 'is) AggregatorRoTx
   \<Rightarrow> u64 \<Rightarrow> u64 \<Rightarrow> panic + 'h RangesV3" where
  "findMergeRange_propose Equal agg at maxEndTxNum maxSpan =
     (let r0 = (\<lambda>id. d_findMergeRange (rotx_d at id) maxEndTxNum maxSpan);
          r1 = (if commitmentValuesTransform agg \<and> needMerge (dr_values (r0 CommitmentDomain))
                then (case couple_loop Equal at (r0 CommitmentDomain) (domainIds agg) (r0, False) of
                        (r, restorePrevRange) \<Rightarrow>
                          if restorePrevRange then cancel_values (domainIds agg) r else r)
                else r0)
      in if iisLen agg < length (rotx_iis at) then Inl IndexOutOfRange
         else Inr \<lparr>r_domain = r1,
                   r_invertedIndex =
                     map (\<lambda>ii. ii_findMergeRange ii maxEndTxNum maxSpan) (rotx_iis at)
                     @ replicate (iisLen agg - length (rotx_iis at)) None\<rparr>)"

text \<open>
  \<^verbatim>\<open>func (at *AggregatorRoTx) findMergeRange(maxEndTxNum, maxSpan uint64) *RangesV3 {
      r := &RangesV3{invertedIndex: make([]*MergeRange, len(at.a.iis))}
      if at.a.commitmentValuesTransform {
          lmrAcc := at.d[kv.AccountsDomain].files.LatestMergedRange()
          lmrSto := at.d[kv.StorageDomain].files.LatestMergedRange()
          lmrCom := at.d[kv.CommitmentDomain].files.LatestMergedRange()
          if !lmrCom.Equal(&lmrAcc) || !lmrCom.Equal(&lmrSto) {
              maxEndTxNum = min(maxEndTxNum, max(lmrAcc.to, lmrSto.to, lmrCom.to))
              at.a.logger.Warn("findMergeRange: hold further merge", "to", maxEndTxNum/at.StepSize(), ...)
          }
      }
      ... }\<close>
  The argument \<^verbatim>\<open>maxEndTxNum/at.StepSize()\<close> of the warning is evaluated, so a zero step
  size panics there.
\<close>

definition findMergeRange ::
  "(MergeRange \<Rightarrow> MergeRange \<Rightarrow> bool) \<Rightarrow> 'f Aggregator \<Rightarrow> ('f, 'db, 'h, 'ds, 'is) AggregatorRoTx
   \<Rightarrow> u64 \<Rightarrow> u64 \<Rightarrow> panic + 'h RangesV3" where
  "findMergeRange Equal agg at maxEndTxNum maxSpan =
     (case rotx_a at of
        None \<Rightarrow> Inl NilDereference
      | Some _ \<Rightarrow>
          (let lmrAcc = files_LatestMergedRange (rotx_d at AccountsDomain);
               lmrSto = files_LatestMergedRange (rotx_d at StorageDomain);
               lmrCom = files_LatestMergedRange (rotx_d at CommitmentDomain)
           in if commitmentValuesTransform agg \<and> (\<not> Equal lmrCom lmrAcc \<or> \<not> Equal lmrCom lmrSto)
              then (let maxEndTxNum' = min maxEndTxNum (max (max (mr_to lmrAcc) (mr_to lmrSto)) (mr_to lmrCom))
                    in case go_div maxEndTxNum' (StepSize agg) of
                         Inl p \<Rightarrow> Inl p
                       | Inr _ \<Rightarrow> findMergeRange_propose Equal agg at maxEndTxNum' maxSpan)
              else findMergeRange_propose Equal agg at maxEndTxNum maxSpan))"

subsection \<open>Prune\<close>

text \<open>
  \<^verbatim>\<open>type AggregatorPruneStat struct {
       Domains map[string]*DomainPruneStat; Indices map[string]*InvertedIndexPruneStat }\<close>
  The maps are association lists (a key bound to \<open>None\<close> holds a nil pointer);
  \<^verbatim>\<open>m[k] = v\<close> is \<open>AList.update k v m\<close>. The statistics of a domain \<open>'ds\<close> and of an
  index \<open>'is\<close> are declared in other files, with their methods \<^verbatim>\<open>PrunedNothing\<close>.
\<close>

record ('ds, 'is) AggregatorPruneStat =
  Domains :: "(string \<times> 'ds option) list"
  Indices :: "(string \<times> 'is option) list"


text \<open>
  \<^verbatim>\<open>func (at *AggregatorRoTx) CanPrune(tx kv.Tx, untilTx uint64) bool {
      if dbg.NoPrune() { return false }
      for _, d := range at.d { if d.CanPruneUntil(tx, untilTx) { return true } }
      for _, ii := range at.iis { if ii.CanPrune(tx) { return true } }
      return false }\<close>
  \<open>noPrune\<close> is the debug switch \<^verbatim>\<open>dbg.NoPrune()\<close>.
\<close>

definition CanPrune ::
  "bool \<Rightarrow> 'f Aggregator \<Rightarrow> ('f, 'db, 'h, 'ds, 'is) AggregatorRoTx \<Rightarrow> 'db \<Rightarrow> u64 \<Rightarrow> bool" where
  "CanPrune noPrune agg at tx untilTx =
     (if noPrune then False
      else if list_ex (\<lambda>id. CanPruneUntil (rotx_d at id) tx untilTx) (domainIds agg) then True
      else if list_ex (\<lambda>ii. ii_CanPrune ii tx) (rotx_iis at) then True
      else False)"

text \<open>
  The loop of \<^verbatim>\<open>Prune\<close> over the domains:
  \<^verbatim>\<open>for id, d := range at.d {
      var err error
      aggStat.Domains[at.d[id].d.filenameBase], err = d.Prune(ctx, tx, step, txFrom, txTo, limit, logEvery)
      if err != nil { return aggStat, err } }\<close>
\<close>

fun prune_domains ::
  "('f, 'db, 'h, 'ds, 'is) AggregatorRoTx \<Rightarrow> u64 \<Rightarrow> u64 \<Rightarrow> u64 \<Rightarrow> u64 \<Rightarrow> Domain list
   \<Rightarrow> (string \<times> 'ds option) list \<Rightarrow> 'db \<Rightarrow> ((string \<times> 'ds option) list \<times> err option) \<times> 'db" where
  "prune_domains at step txFrom txTo limit [] doms tx = ((doms, None), tx)"
| "prune_domains at step txFrom txTo limit (k # ids) doms tx =
     (case d_Prune (rotx_d at k) tx step txFrom txTo limit of
        ((stat, e), tx') \<Rightarrow>
          (let doms' = AList.update (d_filenameBase (rotx_d at k)) stat doms
           in case e of
                Some er \<Rightarrow> ((doms', Some er), tx')
              | None \<Rightarrow> prune_domains at step txFrom txTo limit ids doms' tx'))"

text \<open>
  The loop over the inverted indices, which runs over the indexes of \<^verbatim>\<open>at.a.iis\<close> and
  reads \<^verbatim>\<open>at.iis\<close>:
  \<^verbatim>\<open>for iikey := range at.a.iis {
      stat, err := at.iis[iikey].Prune(ctx, tx, txFrom, txTo, limit, logEvery, false, nil)
      if err != nil { return nil, err }
      stats[iikey] = stat }\<close>
  The result pairs each index's file name with its statistic, in order.
\<close>

fun prune_iis ::
  "('f, 'db, 'h, 'ds, 'is) AggregatorRoTx \<Rightarrow> u64 \<Rightarrow> u64 \<Rightarrow> u64 \<Rightarrow> nat list
   \<Rightarrow> (string \<times> 'is option) list \<Rightarrow> 'db
   \<Rightarrow> panic + (((string \<times> 'is option) list \<times> err option) \<times> 'db)" where
  "prune_iis at txFrom txTo limit [] stats tx = Inr ((stats, None), tx)"
| "prune_iis at txFrom txTo limit (iikey # keys) stats tx =
     (if length (rotx_iis at) \<le> iikey then Inl IndexOutOfRange
      else (case ii_Prune (rotx_iis at ! iikey) tx txFrom txTo limit of
              ((stat, e), tx') \<Rightarrow>
                (case e of
                   Some er \<Rightarrow> Inr ((stats, Some er), tx')
                 | None \<Rightarrow>
                     prune_iis at txFrom txTo limit keys
                       (stats @ [(ii_filenameBase (rotx_iis at ! iikey), stat)]) tx')))"

text \<open>
  \<^verbatim>\<open>func (at *AggregatorRoTx) Prune(ctx, tx kv.RwTx, limit uint64, logEvery *time.Ticker)
        (*AggregatorPruneStat, error) {
      if limit == 0 { limit = uint64(math.MaxUint64) }
      var txFrom, step uint64
      txTo := at.a.visibleFilesMinimaxTxNum.Load()
      if txTo > 0 { step = (txTo - 1) / at.StepSize() }
      if txFrom == txTo || !at.CanPrune(tx, txTo) { return nil, nil }
      ... the loop over the domains, the loop over the indices ...
      for iikey := range at.a.iis { aggStat.Indices[at.iis[iikey].ii.filenameBase] = stats[iikey] }
      return aggStat, nil }\<close>
  The result is the pair (statistic, error), \<open>None\<close> for nil, with the new state of the DB
  transaction.
\<close>

definition Prune ::
  "bool \<Rightarrow> 'f Aggregator \<Rightarrow> ('f, 'db, 'h, 'ds, 'is) AggregatorRoTx \<Rightarrow> 'db \<Rightarrow> u64
   \<Rightarrow> panic + ((('ds, 'is) AggregatorPruneStat option \<times> err option) \<times> 'db)" where
  "Prune noPrune agg at tx limit0 =
     (let limit = (if limit0 = 0 then 18446744073709551615 else limit0);
          txFrom = 0
      in case rotx_a at of
           None \<Rightarrow> Inl NilDereference
         | Some _ \<Rightarrow>
             (let txTo = visibleFilesMinimaxTxNum agg
              in case (if txTo > 0 then go_div (txTo - 1) (StepSize agg) else Inr 0) of
                   Inl p \<Rightarrow> Inl p
                 | Inr step \<Rightarrow>
                     if txFrom = txTo \<or> \<not> CanPrune noPrune agg at tx txTo then Inr ((None, None), tx)
                     else (case prune_domains at step txFrom txTo limit (domainIds agg) [] tx of
                             ((doms, Some er), tx') \<Rightarrow>
                               Inr ((Some \<lparr>Domains = doms, Indices = []\<rparr>, Some er), tx')
                           | ((doms, None), tx') \<Rightarrow>
                               (case prune_iis at txFrom txTo limit [0..<iisLen agg] [] tx' of
                                  Inl p \<Rightarrow> Inl p
                                | Inr ((stats, Some er), tx'') \<Rightarrow> Inr ((None, Some er), tx'')
                                | Inr ((stats, None), tx'') \<Rightarrow>
                                    Inr ((Some \<lparr>Domains = doms,
                                               Indices = fold (\<lambda>(k, v). AList.update k v) stats []\<rparr>,
                                          None), tx'')))))"

subsection \<open>PruneSmallBatches\<close>















subsection \<open>Opening and closing read handles, closing the aggregator\<close>

text \<open>
  The methods of \<^verbatim>\<open>Domain\<close> and \<^verbatim>\<open>InvertedIndex\<close> (declared in other files) that
  \<^verbatim>\<open>BeginFilesRo\<close>, \<^verbatim>\<open>closeDirtyFiles\<close> and \<^verbatim>\<open>recalcVisibleFiles\<close> call, as
  functions on the file sets \<open>'f\<close>; an inverted index is named by its position in
  \<^verbatim>\<open>a.iis\<close>. \<open>leak_Add\<close> is the id that \<^verbatim>\<open>a.leakDetector.Add()\<close> registers.
\<close>

record ('f, 'db, 'h, 'ds, 'is) FileOps =
  dom_Close :: "Domain \<Rightarrow> 'f \<Rightarrow> 'f"
  idx_Close :: "nat \<Rightarrow> 'f \<Rightarrow> 'f"
  dom_dirtyFilesEndTxNumMinimax :: "Domain \<Rightarrow> 'f \<Rightarrow> u64"
  dom_reCalcVisibleFiles :: "Domain \<Rightarrow> u64 \<Rightarrow> 'f \<Rightarrow> 'f"
  idx_reCalcVisibleFiles :: "nat \<Rightarrow> u64 \<Rightarrow> 'f \<Rightarrow> 'f"
  dom_BeginFilesRo :: "Domain \<Rightarrow> 'f \<Rightarrow> ('f, 'db, 'h, 'ds) DomainRoTx \<times> 'f"
  idx_BeginFilesRo :: "nat \<Rightarrow> 'f \<Rightarrow> ('f, 'db, 'is) InvertedIndexRoTx \<times> 'f"
  leak_Add :: "u64 set \<Rightarrow> u64"

text \<open>
  \<^verbatim>\<open>func (a *Aggregator) BeginFilesRo() *AggregatorRoTx {
      ac := &AggregatorRoTx{a: a, id: a.aggRoTxAutoIncrement.Add(1),
              _leakID: a.leakDetector.Add(), iis: make([]*InvertedIndexRoTx, len(a.iis))}
      a.visibleFilesLock.RLock()
      for id, ii := range a.iis { ac.iis[id] = ii.BeginFilesRo() }
      for id, d := range a.d { ac.d[id] = d.BeginFilesRo() }
      a.visibleFilesLock.RUnlock()
      return ac }\<close>
\<close>

fun begin_iis ::
  "('f, 'db, 'h, 'ds, 'is) FileOps \<Rightarrow> nat list \<Rightarrow> 'f \<Rightarrow> ('f, 'db, 'is) InvertedIndexRoTx list \<times> 'f" where
  "begin_iis ops [] f = ([], f)"
| "begin_iis ops (i # rest) f =
     (case idx_BeginFilesRo ops i f of
        (ii, f1) \<Rightarrow> (case begin_iis ops rest f1 of (iis, f2) \<Rightarrow> (ii # iis, f2)))"

fun begin_domains ::
  "('f, 'db, 'h, 'ds, 'is) FileOps \<Rightarrow> Domain list \<Rightarrow> (Domain \<Rightarrow> ('f, 'db, 'h, 'ds) DomainRoTx) \<times> 'f
   \<Rightarrow> (Domain \<Rightarrow> ('f, 'db, 'h, 'ds) DomainRoTx) \<times> 'f" where
  "begin_domains ops [] (d, f) = (d, f)"
| "begin_domains ops (k # rest) (d, f) =
     (case dom_BeginFilesRo ops k f of (dk, f1) \<Rightarrow> begin_domains ops rest (d(k := dk), f1))"

definition BeginFilesRo ::
  "('f, 'db, 'h, 'ds, 'is) FileOps \<Rightarrow> 'f Aggregator
   \<Rightarrow> ('f, 'db, 'h, 'ds, 'is) AggregatorRoTx \<times> 'f Aggregator" where
  "BeginFilesRo ops a =
     (let newId = aggRoTxAutoIncrement a + 1;
          leakID = leak_Add ops (leakDetector a)
      in case begin_iis ops [0..<iisLen a] (files a) of
           (iis, f1) \<Rightarrow>
             (case begin_domains ops (domainIds a) (\<lambda>k. fst (dom_BeginFilesRo ops k f1), f1) of
                (d, f2) \<Rightarrow>
                  (\<lparr>rotx_a = Some (), rotx_d = d, rotx_iis = iis, rotx_id = newId, rotx_leakID = leakID\<rparr>,
                   a\<lparr>aggRoTxAutoIncrement := newId,
                     leakDetector := insert leakID (leakDetector a),
                     files := f2\<rparr>)))"

text \<open>
  \<^verbatim>\<open>func (at *AggregatorRoTx) Close() {
      if at == nil || at.a == nil { // invariant: it's safe to call Close multiple times
          return
      }
      at.a.leakDetector.Del(at._leakID)
      at.a = nil
      for _, d := range at.d { if d != nil { d.Close() } }
      for _, ii := range at.iis { ii.Close() } }\<close>
  The state is the aggregator together with the pointer \<open>at\<close>: \<open>None\<close> is the nil pointer.
\<close>

definition AggregatorRoTx_Close ::
  "'f Aggregator \<times> ('f, 'db, 'h, 'ds, 'is) AggregatorRoTx option
   \<Rightarrow> 'f Aggregator \<times> ('f, 'db, 'h, 'ds, 'is) AggregatorRoTx option" where
  "AggregatorRoTx_Close s =
     (case s of
        (agg, None) \<Rightarrow> (agg, None)
      | (agg, Some at) \<Rightarrow>
          (case rotx_a at of
             None \<Rightarrow> (agg, Some at)
           | Some _ \<Rightarrow>
               (let f1 = fold (\<lambda>k. d_Close (rotx_d at k)) (domainIds agg) (files agg);
                    f2 = fold (\<lambda>ii. ii_Close ii) (rotx_iis at) f1
                in (agg\<lparr>leakDetector := leakDetector agg - {rotx_leakID at}, files := f2\<rparr>,
                    Some (at\<lparr>rotx_a := None\<rparr>)))))"

text \<open>
  \<^verbatim>\<open>func (a *Aggregator) closeDirtyFiles()\<close> closes every domain and every inverted
  index (each in a goroutine of its own, all waited for).
\<close>

definition closeDirtyFiles :: "('f, 'db, 'h, 'ds, 'is) FileOps \<Rightarrow> 'f Aggregator \<Rightarrow> 'f Aggregator" where
  "closeDirtyFiles ops a =
     a\<lparr>files := fold (idx_Close ops) [0..<iisLen a] (fold (dom_Close ops) (domainIds a) (files a))\<rparr>"

text \<open>
  \<^verbatim>\<open>func (a *Aggregator) dirtyFilesEndTxNumMinimax() uint64 {
      m := min(a.d[kv.AccountsDomain].dirtyFilesEndTxNumMinimax(),
               a.d[kv.StorageDomain].dirtyFilesEndTxNumMinimax(),
               a.d[kv.CodeDomain].dirtyFilesEndTxNumMinimax())
      return m }\<close>
\<close>

definition dirtyFilesEndTxNumMinimax :: "('f, 'db, 'h, 'ds, 'is) FileOps \<Rightarrow> 'f Aggregator \<Rightarrow> u64" where
  "dirtyFilesEndTxNumMinimax ops a =
     min (min (dom_dirtyFilesEndTxNumMinimax ops AccountsDomain (files a))
              (dom_dirtyFilesEndTxNumMinimax ops StorageDomain (files a)))
         (dom_dirtyFilesEndTxNumMinimax ops CodeDomain (files a))"

text \<open>
  \<^verbatim>\<open>func (a *Aggregator) recalcVisibleFilesMinimaxTxNum() {
      aggTx := a.BeginFilesRo()
      defer aggTx.Close()
      a.visibleFilesMinimaxTxNum.Store(aggTx.TxNumsInFiles(kv.StateDomains...)) }\<close>
  \<open>StateDomains\<close> is the list \<^verbatim>\<open>kv.StateDomains\<close>, declared in package kv.
\<close>

definition recalcVisibleFilesMinimaxTxNum ::
  "('f, 'db, 'h, 'ds, 'is) FileOps \<Rightarrow> Domain list \<Rightarrow> 'f Aggregator \<Rightarrow> panic + 'f Aggregator" where
  "recalcVisibleFilesMinimaxTxNum ops StateDomains a =
     (case BeginFilesRo ops a of
        (aggTx, a1) \<Rightarrow>
          (case TxNumsInFiles a1 aggTx StateDomains of
             Inl p \<Rightarrow> Inl p
           | Inr v \<Rightarrow> Inr (fst (AggregatorRoTx_Close (a1\<lparr>visibleFilesMinimaxTxNum := v\<rparr>, Some aggTx)))))"

text \<open>
  \<^verbatim>\<open>func (a *Aggregator) recalcVisibleFiles(toTxNum uint64) {
      defer a.recalcVisibleFilesMinimaxTxNum()
      for _, d := range a.d { if d == nil { continue }; d.reCalcVisibleFiles(toTxNum) }
      for _, ii := range a.iis { if ii == nil { continue }; ii.reCalcVisibleFiles(toTxNum) } }\<close>
\<close>

definition recalcVisibleFiles ::
  "('f, 'db, 'h, 'ds, 'is) FileOps \<Rightarrow> Domain list \<Rightarrow> u64 \<Rightarrow> 'f Aggregator \<Rightarrow> panic + 'f Aggregator" where
  "recalcVisibleFiles ops StateDomains toTxNum a =
     recalcVisibleFilesMinimaxTxNum ops StateDomains
       (a\<lparr>files := fold (\<lambda>i. idx_reCalcVisibleFiles ops i toTxNum) [0..<iisLen a]
                     (fold (\<lambda>k. dom_reCalcVisibleFiles ops k toTxNum) (domainIds a) (files a))\<rparr>)"

text \<open>
  \<^verbatim>\<open>func (a *Aggregator) Close() {
      if a.ctxCancel == nil { // invariant: it's safe to call Close multiple times
          return
      }
      a.ctxCancel()
      a.ctxCancel = nil
      a.wg.Wait()
      a.closeDirtyFiles()
      a.recalcVisibleFiles(a.DirtyFilesEndTxNumMinimax()) }\<close>
  \<^verbatim>\<open>a.wg.Wait()\<close> waits for the goroutines of the aggregator, which are not part of this
  state.
\<close>

definition Aggregator_Close ::
  "('f, 'db, 'h, 'ds, 'is) FileOps \<Rightarrow> Domain list \<Rightarrow> 'f Aggregator \<Rightarrow> panic + 'f Aggregator" where
  "Aggregator_Close ops StateDomains a =
     (if ctxCancel a = None then Inr a
      else (let a1 = a\<lparr>ctxDone := True\<rparr>;
                a2 = a1\<lparr>ctxCancel := None\<rparr>;
                a3 = closeDirtyFiles ops a2
            in recalcVisibleFiles ops StateDomains (dirtyFilesEndTxNumMinimax ops a3) a3))"

subsection \<open>What a background job does\<close>

text \<open>
  What a background job does that can be seen from outside, in order: the steps it calls
  \<^verbatim>\<open>buildFiles\<close> for, its warnings (\<open>LogWarn\<close> carries the error of the \<^verbatim>\<open>"err"\<close> key,
  \<open>LogWarning\<close> is a warning without one), its information lines, and the closing of the
  channel \<^verbatim>\<open>fin\<close>. Debug lines are left out. A panic in a goroutine ends the process
  after the deferred calls: it is the result of the job, with the events up to it.
\<close>

datatype event = BuildStep u64 | LogWarn string err | LogWarning string | LogInfo string | CloseFin

fun isBuildStep :: "event \<Rightarrow> bool" where
  "isBuildStep (BuildStep s) = True"
| "isBuildStep ev = False"

text \<open>
  \<^verbatim>\<open>errors.Is(err, context.Canceled) || errors.Is(err, common2.ErrStopped)\<close>
\<close>

definition isCancel :: "err \<Rightarrow> bool" where
  "isCancel e = (errors_Is e Canceled \<or> errors_Is e ErrStopped)"

subsection \<open>Merging\<close>

text \<open>
  What merging takes from other files of the package, as parameters:
  \<open>StepsInFrozenFile\<close> is the constant \<^verbatim>\<open>config3.StepsInFrozenFile\<close>, \<open>mr_Equal\<close> the
  method \<^verbatim>\<open>MergeRange.Equal\<close>, \<open>dr_any\<close> the method \<^verbatim>\<open>DomainRanges.any\<close>,
  \<open>StaticFilesInRange\<close> the method of that name of the read handle (it returns the
  selected files \<open>'o\<close> and an error), \<open>outs_Close\<close> and \<open>mf_Close\<close> the \<^verbatim>\<open>Close\<close> methods
  of the selected and of the merged files \<open>'m\<close>. \<open>errgroup_Wait\<close> stands for the
  goroutines that \<^verbatim>\<open>mergeFiles\<close> starts in its \<^verbatim>\<open>errgroup\<close>, one for every domain and
  index that has something to merge (they call \<^verbatim>\<open>DomainRoTx.mergeFiles\<close>,
  \<^verbatim>\<open>commitmentValTransformDomain\<close> and \<^verbatim>\<open>InvertedIndexRoTx.mergeFiles\<close> with the
  context of the group), and for \<^verbatim>\<open>g.Wait()\<close>: it gives the merged files and the first
  error of the group, which is the cancellation error when the context is cancelled.
  The last four are the methods \<^verbatim>\<open>integrateMergedDirtyFiles\<close> and \<^verbatim>\<open>cleanAfterMerge\<close> of a
  domain and of an inverted index, named by its position in \<^verbatim>\<open>a.iis\<close>.
\<close>

record ('f, 'db, 'h, 'ds, 'is, 'o, 'm) MergeOps =
  StepsInFrozenFile :: u64
  mr_Equal :: "MergeRange \<Rightarrow> MergeRange \<Rightarrow> bool"
  dr_any :: "'h DomainRanges \<Rightarrow> bool"
  StaticFilesInRange :: "('f, 'db, 'h, 'ds, 'is) AggregatorRoTx \<Rightarrow> 'h RangesV3 \<Rightarrow> 'o \<times> err option"
  outs_Close :: "'o \<Rightarrow> 'f \<Rightarrow> 'f"
  errgroup_Wait ::
    "('f, 'db, 'h, 'ds, 'is) AggregatorRoTx \<Rightarrow> 'o \<Rightarrow> 'h RangesV3 \<Rightarrow> 'f \<Rightarrow> ('m \<times> err option) \<times> 'f"
  mf_Close :: "'m \<Rightarrow> 'f \<Rightarrow> 'f"
  dom_integrateMergedDirtyFiles :: "Domain \<Rightarrow> 'o \<Rightarrow> 'm \<Rightarrow> 'f \<Rightarrow> 'f"
  idx_integrateMergedDirtyFiles :: "nat \<Rightarrow> 'o \<Rightarrow> 'm \<Rightarrow> 'f \<Rightarrow> 'f"
  dom_cleanAfterMerge :: "Domain \<Rightarrow> 'm \<Rightarrow> 'f \<Rightarrow> 'f"
  idx_cleanAfterMerge :: "nat \<Rightarrow> 'm \<Rightarrow> 'f \<Rightarrow> 'f"

text \<open>
  \<^verbatim>\<open>func (r RangesV3) any() bool {
      for _, d := range &r.domain { if d.any() { return true } }
      for _, ii := range r.invertedIndex { if ii != nil && ii.needMerge { return true } }
      return false }\<close>
  \<open>ids\<close> are the indexes of the array \<^verbatim>\<open>r.domain\<close>.
\<close>

definition RangesV3_any :: "('h DomainRanges \<Rightarrow> bool) \<Rightarrow> Domain list \<Rightarrow> 'h RangesV3 \<Rightarrow> bool" where
  "RangesV3_any any_d ids r =
     (list_ex (\<lambda>k. any_d (r_domain r k)) ids
      \<or> list_ex (\<lambda>ii. case ii of None \<Rightarrow> False | Some m \<Rightarrow> needMerge m) (r_invertedIndex r))"

text \<open>
  The warning that \<^verbatim>\<open>findMergeRange\<close> logs when it lowers its end bound (it is logged
  when the call gets that far, that is, when it does not panic):
  \<^verbatim>\<open>if !lmrCom.Equal(&lmrAcc) || !lmrCom.Equal(&lmrSto) {
      ...
      at.a.logger.Warn("findMergeRange: hold further merge", ...) }\<close>
\<close>

definition findMergeRange_logged ::
  "(MergeRange \<Rightarrow> MergeRange \<Rightarrow> bool) \<Rightarrow> 'f Aggregator \<Rightarrow> ('f, 'db, 'h, 'ds, 'is) AggregatorRoTx
   \<Rightarrow> event list" where
  "findMergeRange_logged Equal agg at =
     (let lmrAcc = files_LatestMergedRange (rotx_d at AccountsDomain);
          lmrSto = files_LatestMergedRange (rotx_d at StorageDomain);
          lmrCom = files_LatestMergedRange (rotx_d at CommitmentDomain)
      in if commitmentValuesTransform agg \<and> (\<not> Equal lmrCom lmrAcc \<or> \<not> Equal lmrCom lmrSto)
         then [LogWarning ''findMergeRange: hold further merge'']
         else [])"

text \<open>
  \<^verbatim>\<open>func (at *AggregatorRoTx) mergeFiles(ctx context.Context, files *SelectedStaticFilesV3,
          r *RangesV3) (*MergedFilesV3, error) {
      mf := &MergedFilesV3{iis: make([]*filesItem, len(at.a.iis))}
      g, ctx := errgroup.WithContext(ctx)
      closeFiles := true
      defer func() { if closeFiles { mf.Close() } }()
      at.a.logger.Info(fmt.Sprintf("[snapshots] merge state %s", r.String()))
      for id := range at.d { if !r.domain[id].any() { continue }; ...; g.Go(...) }
      for id, rng := range r.invertedIndex { if !rng.needMerge { continue }; ...; g.Go(...) }
      err := g.Wait()
      if err == nil {
          closeFiles = false
          at.a.logger.Info(fmt.Sprintf("[snapshots] state merge done %s", r.String()))
      } else {
          at.a.logger.Warn(fmt.Sprintf("[snapshots] state merge failed err=%v %s", err, r.String()))
      }
      return mf, err }\<close>
  The warning is logged for every error of the group, a cancellation included. A nil
  \<^verbatim>\<open>at.a\<close> and a nil entry of \<^verbatim>\<open>r.invertedIndex\<close> are dereferenced. The result is the
  lines logged, and a panic or the merged files, the error and the new state.
\<close>

definition mergeFiles ::
  "('f, 'db, 'h, 'ds, 'is, 'o, 'm) MergeOps \<Rightarrow> 'f Aggregator \<Rightarrow> ('f, 'db, 'h, 'ds, 'is) AggregatorRoTx
   \<Rightarrow> 'o \<Rightarrow> 'h RangesV3 \<Rightarrow> event list \<times> (panic + (('m \<times> err option) \<times> 'f Aggregator))" where
  "mergeFiles mops agg at outs r =
     (case rotx_a at of
        None \<Rightarrow> ([], Inl NilDereference)
      | Some _ \<Rightarrow>
          if list_ex (\<lambda>rng. rng = None) (r_invertedIndex r)
          then ([LogInfo ''[snapshots] merge state''], Inl NilDereference)
          else (case errgroup_Wait mops at outs r (files agg) of
                  ((mf, None), f1) \<Rightarrow>
                    ([LogInfo ''[snapshots] merge state'', LogInfo ''[snapshots] state merge done''],
                     Inr ((mf, None), agg\<lparr>files := f1\<rparr>))
                | ((mf, Some e), f1) \<Rightarrow>
                    ([LogInfo ''[snapshots] merge state'', LogWarn ''[snapshots] state merge failed'' e],
                     Inr ((mf, Some e), agg\<lparr>files := mf_Close mops mf f1\<rparr>))))"

text \<open>
  \<^verbatim>\<open>func (a *Aggregator) integrateMergedDirtyFiles(outs *SelectedStaticFilesV3, in *MergedFilesV3) {
      for id, d := range a.d { d.integrateMergedDirtyFiles(outs.d[id], ..., in.d[id], ...) }
      for id, ii := range a.iis { ii.integrateMergedDirtyFiles(outs.ii[id], in.iis[id]) } }\<close>
\<close>

definition integrateMergedDirtyFiles ::
  "('f, 'db, 'h, 'ds, 'is, 'o, 'm) MergeOps \<Rightarrow> 'o \<Rightarrow> 'm \<Rightarrow> 'f Aggregator \<Rightarrow> 'f Aggregator" where
  "integrateMergedDirtyFiles mops outs mf a =
     a\<lparr>files := fold (\<lambda>i. idx_integrateMergedDirtyFiles mops i outs mf) [0..<iisLen a]
                   (fold (\<lambda>k. dom_integrateMergedDirtyFiles mops k outs mf) (domainIds a) (files a))\<rparr>"

text \<open>
  \<^verbatim>\<open>func (a *Aggregator) cleanAfterMerge(in *MergedFilesV3) {
      at := a.BeginFilesRo()
      defer at.Close()
      for id, d := range at.d { d.cleanAfterMerge(in.d[id], in.dHist[id], in.dIdx[id]) }
      for id, ii := range at.iis { ii.cleanAfterMerge(in.iis[id]) } }\<close>
\<close>

definition cleanAfterMerge ::
  "('f, 'db, 'h, 'ds, 'is) FileOps \<Rightarrow> ('f, 'db, 'h, 'ds, 'is, 'o, 'm) MergeOps \<Rightarrow> 'm
   \<Rightarrow> 'f Aggregator \<Rightarrow> 'f Aggregator" where
  "cleanAfterMerge ops mops mf a =
     (case BeginFilesRo ops a of
        (at, a1) \<Rightarrow>
          (let f1 = fold (\<lambda>k. dom_cleanAfterMerge mops k mf) (domainIds a1) (files a1);
               f2 = fold (\<lambda>i. idx_cleanAfterMerge mops i mf) [0..<length (rotx_iis at)] f1
           in fst (AggregatorRoTx_Close (a1\<lparr>files := f2\<rparr>, Some at))))"

text \<open>
  \<^verbatim>\<open>func (a *Aggregator) mergeLoopStep(ctx context.Context, toTxNum uint64) (somethingDone bool, err error) {
      aggTx := a.BeginFilesRo()
      defer aggTx.Close()
      closeAll := true
      maxSpan := config3.StepsInFrozenFile * a.StepSize()
      r := aggTx.findMergeRange(toTxNum, maxSpan)
      if !r.any() { return false, nil }
      outs, err := aggTx.StaticFilesInRange(r)
      defer func() { if closeAll { outs.Close() } }()
      if err != nil { return false, err }
      in, err := aggTx.mergeFiles(ctx, outs, r)
      if err != nil { return true, err }
      defer func() { if closeAll { in.Close() } }()
      a.integrateMergedDirtyFiles(outs, in)
      a.recalcVisibleFiles(a.DirtyFilesEndTxNumMinimax())
      a.cleanAfterMerge(in)
      a.onFreeze(in.FrozenList())
      closeAll = false
      return true, nil }\<close>
  The deferred calls run in reverse order when the function returns. \<^verbatim>\<open>a.onFreeze\<close> is
  a callback of the caller and not part of this state. The result is the lines logged,
  and a panic or the two results with the new state.
\<close>

definition mergeLoopStep ::
  "('f, 'db, 'h, 'ds, 'is) FileOps \<Rightarrow> ('f, 'db, 'h, 'ds, 'is, 'o, 'm) MergeOps \<Rightarrow> Domain list
   \<Rightarrow> 'f Aggregator \<Rightarrow> u64 \<Rightarrow> event list \<times> (panic + ((bool \<times> err option) \<times> 'f Aggregator))" where
  "mergeLoopStep ops mops StateDomains a toTxNum =
     (case BeginFilesRo ops a of
        (aggTx, a1) \<Rightarrow>
          (let maxSpan = StepsInFrozenFile mops * StepSize a1
           in case findMergeRange (mr_Equal mops) a1 aggTx toTxNum maxSpan of
                Inl p \<Rightarrow> ([], Inl p)
              | Inr r \<Rightarrow>
                  (let logged = findMergeRange_logged (mr_Equal mops) a1 aggTx
                   in if \<not> RangesV3_any (dr_any mops) (domainIds a1) r
                      then (logged, Inr ((False, None), fst (AggregatorRoTx_Close (a1, Some aggTx))))
                      else (case StaticFilesInRange mops aggTx r of
                              (outs, Some e) \<Rightarrow>
                                (logged,
                                 Inr ((False, Some e),
                                      fst (AggregatorRoTx_Close
                                             (a1\<lparr>files := outs_Close mops outs (files a1)\<rparr>, Some aggTx))))
                            | (outs, None) \<Rightarrow>
                                (case mergeFiles mops a1 aggTx outs r of
                                   (evs, Inl p) \<Rightarrow> (logged @ evs, Inl p)
                                 | (evs, Inr ((mf, Some e), a2)) \<Rightarrow>
                                     (logged @ evs,
                                      Inr ((True, Some e),
                                           fst (AggregatorRoTx_Close
                                                  (a2\<lparr>files := outs_Close mops outs (files a2)\<rparr>,
                                                   Some aggTx))))
                                 | (evs, Inr ((mf, None), a2)) \<Rightarrow>
                                     (let a3 = integrateMergedDirtyFiles mops outs mf a2
                                      in case recalcVisibleFiles ops StateDomains
                                                (dirtyFilesEndTxNumMinimax ops a3) a3 of
                                           Inl p \<Rightarrow> (logged @ evs, Inl p)
                                         | Inr a4 \<Rightarrow>
                                             (logged @ evs,
                                              Inr ((True, None),
                                                   fst (AggregatorRoTx_Close
                                                          (cleanAfterMerge ops mops mf a4,
                                                           Some aggTx))))))))))"

text \<open>
  \<^verbatim>\<open>func (a *Aggregator) MergeLoop(ctx context.Context) error {
      if dbg.NoMerge() || !a.mergingFiles.CompareAndSwap(false, true) { return nil }
      defer a.mergingFiles.Store(false)
      for {
          somethingMerged, err := a.mergeLoopStep(ctx, a.visibleFilesMinimaxTxNum.Load())
          if err != nil { return err }
          if !somethingMerged { return nil }
      } }\<close>
  \<open>noMerge\<close> is \<^verbatim>\<open>dbg.NoMerge()\<close>. The loop may run for ever: \<open>None\<close> is not returning.
  \<open>acc\<close> holds the lines logged by the iterations before.
\<close>

partial_function (option) mergeLoop_iter ::
  "('f, 'db, 'h, 'ds, 'is) FileOps \<Rightarrow> ('f, 'db, 'h, 'ds, 'is, 'o, 'm) MergeOps \<Rightarrow> Domain list
   \<Rightarrow> event list \<Rightarrow> 'f Aggregator
   \<Rightarrow> (event list \<times> (panic + (err option \<times> 'f Aggregator))) option" where
  "mergeLoop_iter ops mops StateDomains acc a =
     (case mergeLoopStep ops mops StateDomains a (visibleFilesMinimaxTxNum a) of
        (evs, Inl p) \<Rightarrow> Some (acc @ evs, Inl p)
      | (evs, Inr ((somethingMerged, err), a')) \<Rightarrow>
          if err \<noteq> None then Some (acc @ evs, Inr (err, a'))
          else if \<not> somethingMerged then Some (acc @ evs, Inr (None, a'))
          else mergeLoop_iter ops mops StateDomains (acc @ evs) a')"

declare mergeLoop_iter.simps [code]

definition MergeLoop ::
  "bool \<Rightarrow> ('f, 'db, 'h, 'ds, 'is) FileOps \<Rightarrow> ('f, 'db, 'h, 'ds, 'is, 'o, 'm) MergeOps \<Rightarrow> Domain list
   \<Rightarrow> 'f Aggregator \<Rightarrow> (event list \<times> (panic + (err option \<times> 'f Aggregator))) option" where
  "MergeLoop noMerge ops mops StateDomains a =
     (if noMerge \<or> mergingFiles a then Some ([], Inr (None, a))
      else (case mergeLoop_iter ops mops StateDomains [] (a\<lparr>mergingFiles := True\<rparr>) of
              None \<Rightarrow> None
            | Some (evs, Inl p) \<Rightarrow> Some (evs, Inl p)
            | Some (evs, Inr (e, a')) \<Rightarrow> Some (evs, Inr (e, a'\<lparr>mergingFiles := False\<rparr>))))"

text \<open>
  The lines that merging logs: the two information lines and the warning of
  \<^verbatim>\<open>mergeFiles\<close>, and the warning of \<^verbatim>\<open>findMergeRange\<close>.
\<close>

fun isMergeLog :: "event \<Rightarrow> bool" where
  "isMergeLog (LogInfo s) = (s = ''[snapshots] merge state'' \<or> s = ''[snapshots] state merge done'')"
| "isMergeLog (LogWarn s e) = (s = ''[snapshots] state merge failed'')"
| "isMergeLog (LogWarning s) = (s = ''findMergeRange: hold further merge'')"
| "isMergeLog (BuildStep s) = False"
| "isMergeLog CloseFin = False"

subsection \<open>The background build\<close>

text \<open>
  \<^verbatim>\<open>func lastIdInDB(db kv.RoDB, domain *Domain) (lstInDb uint64) {
      if err := db.View(context.Background(), func(tx kv.Tx) error {
          lstInDb = domain.maxStepInDB(tx)
          return nil
      }); err != nil { log.Warn("[snapshots] lastIdInDB", "err", err) }
      return lstInDb }\<close>
  and \<^verbatim>\<open>lastIdInDBNoHistory\<close>, the same with \<^verbatim>\<open>domain.maxStepInDBNoHistory(tx)\<close>.
  \<open>View domain\<close> is what \<^verbatim>\<open>db.View\<close> gives in the call for \<open>domain\<close>: an error, or the
  read transaction its function runs in. \<open>maxStepInDB\<close> and \<open>maxStepInDBNoHistory\<close> are
  methods of \<^verbatim>\<open>Domain\<close>, declared in another file. The result is the step and the lines
  logged.
\<close>

definition lastIdInDB ::
  "(Domain \<Rightarrow> err + 'tx) \<Rightarrow> (Domain \<Rightarrow> 'tx \<Rightarrow> u64) \<Rightarrow> Domain \<Rightarrow> u64 \<times> event list" where
  "lastIdInDB View maxStepInDB domain =
     (case View domain of
        Inl e \<Rightarrow> (0, [LogWarn ''[snapshots] lastIdInDB'' e])
      | Inr tx \<Rightarrow> (maxStepInDB domain tx, []))"

definition lastIdInDBNoHistory ::
  "(Domain \<Rightarrow> err + 'tx) \<Rightarrow> (Domain \<Rightarrow> 'tx \<Rightarrow> u64) \<Rightarrow> Domain \<Rightarrow> u64 \<times> event list" where
  "lastIdInDBNoHistory View maxStepInDBNoHistory domain =
     (case View domain of
        Inl e \<Rightarrow> (0, [LogWarn ''[snapshots] lastIdInDB'' e])
      | Inr tx \<Rightarrow> (maxStepInDBNoHistory domain tx, []))"

text \<open>
  \<^verbatim>\<open>lastInDB := max(
      lastIdInDB(a.db, a.d[kv.AccountsDomain]),
      lastIdInDB(a.db, a.d[kv.CodeDomain]),
      lastIdInDB(a.db, a.d[kv.StorageDomain]),
      lastIdInDBNoHistory(a.db, a.d[kv.CommitmentDomain]))\<close>
\<close>

definition lastInDB ::
  "(Domain \<Rightarrow> err + 'tx) \<Rightarrow> (Domain \<Rightarrow> 'tx \<Rightarrow> u64) \<Rightarrow> (Domain \<Rightarrow> 'tx \<Rightarrow> u64) \<Rightarrow> u64 \<times> event list" where
  "lastInDB View maxStepInDB maxStepInDBNoHistory =
     (let acc = lastIdInDB View maxStepInDB AccountsDomain;
          cod = lastIdInDB View maxStepInDB CodeDomain;
          sto = lastIdInDB View maxStepInDB StorageDomain;
          com = lastIdInDBNoHistory View maxStepInDBNoHistory CommitmentDomain
      in (max (max (max (fst acc) (fst cod)) (fst sto)) (fst com),
          snd acc @ snd cod @ snd sto @ snd com))"

text \<open>
  The loop of the goroutine of \<^verbatim>\<open>BuildFilesInBackground\<close>:
  \<^verbatim>\<open>for ; step < lastInDB; step++ {
      if err := a.buildFiles(a.ctx, step); err != nil {
          if errors.Is(err, context.Canceled) || errors.Is(err, common2.ErrStopped) {
              close(fin)
              return
          }
          a.logger.Warn("[snapshots] buildFilesInBackground", "err", err)
          break
      } }\<close>
  \<open>buildFiles\<close> stands for \<^verbatim>\<open>a.buildFiles\<close>, which collates and builds through methods
  of the domains: it returns its error and the new state of the aggregator. Of the lines
  it logs itself (a debug line and, for a step it has built, an information line) none is
  a warning; they are not among the events. The result says how the loop was left: it
  ran to its end, it returned from the goroutine, or it broke.
\<close>

datatype loop_exit = LoopDone | LoopReturned | LoopBroke

text \<open>The step counter does not wrap around while it is below the bound of its loop.\<close>

lemma unat_next_step:
  fixes step bound :: u64
  assumes "step < bound"
  shows "unat (step + 1) = Suc (unat step)"
proof -
  from assms have "unat step < unat bound" by (simp add: word_less_nat_alt)
  moreover have "unat bound < 2 ^ 64" using unsigned_less [of bound, where ?'a = nat] by simp
  ultimately have "unat step + unat (1 :: u64) < 2 ^ LENGTH(64)" by simp
  then have "unat (step + 1) = unat step + unat (1 :: u64)" by (simp only: unat_add_lem)
  then show ?thesis by simp
qed

function buildLoop ::
  "('f Aggregator \<Rightarrow> u64 \<Rightarrow> err option \<times> 'f Aggregator) \<Rightarrow> u64 \<Rightarrow> u64 \<Rightarrow> 'f Aggregator
   \<Rightarrow> (event list \<times> 'f Aggregator) \<times> loop_exit" where
  "buildLoop buildFiles step lastStep a =
     (if step < lastStep then
        (case buildFiles a step of
           (Some e, a') \<Rightarrow>
             if isCancel e then (([BuildStep step, CloseFin], a'), LoopReturned)
             else (([BuildStep step, LogWarn ''[snapshots] buildFilesInBackground'' e], a'), LoopBroke)
         | (None, a') \<Rightarrow>
             (case buildLoop buildFiles (step + 1) lastStep a' of
                ((tr, a''), ex) \<Rightarrow> ((BuildStep step # tr, a''), ex)))
      else (([], a), LoopDone))"
  by pat_completeness auto
termination
proof (relation "measure (\<lambda>(buildFiles, step, lastStep, a). unat lastStep - unat step)")
  show "wf (measure (\<lambda>(buildFiles, step, lastStep, a). unat lastStep - unat step))" by simp
next
  fix buildFiles :: "'f Aggregator \<Rightarrow> u64 \<Rightarrow> err option \<times> 'f Aggregator"
    and step lastStep :: u64 and a :: "'f Aggregator" and x a'
  assume lt: "step < lastStep"
  then have "unat (step + 1) = Suc (unat step)" by (rule unat_next_step)
  moreover from lt have "unat step < unat lastStep" by (simp add: word_less_nat_alt)
  ultimately show "((buildFiles, step + 1, lastStep, a'), (buildFiles, step, lastStep, a))
      \<in> measure (\<lambda>(buildFiles, step, lastStep, a). unat lastStep - unat step)"
    by simp
qed

declare buildLoop.simps [simp del]

text \<open>
  The goroutine that \<^verbatim>\<open>BuildFilesInBackground\<close> starts, from \<open>step\<close> on:
  \<^verbatim>\<open>go func() {
      defer a.buildingFiles.Store(false)
      if a.snapshotBuildSema != nil {
          if err := a.snapshotBuildSema.Acquire(a.ctx, 1); err != nil {
              a.logger.Warn("[snapshots] buildFilesInBackground", "err", err)
              close(fin)
              return
          }
          defer a.snapshotBuildSema.Release(1)
      }
      lastInDB := max(...)
      log.Info("BuildFilesInBackground", "step", step, "lastInDB", lastInDB)
      hasData := lastInDB > step
      if !hasData { close(fin); return }
      for ; step < lastInDB; step++ { ... }
      go func() {
          defer close(fin)
          if err := a.MergeLoop(a.ctx); err != nil {
              if errors.Is(err, context.Canceled) || errors.Is(err, common2.ErrStopped) { return }
              a.logger.Warn("[snapshots] merge", "err", err)
          }
      }()
  }()\<close>
  \<open>semaAcquire\<close> is \<open>None\<close> when \<^verbatim>\<open>a.snapshotBuildSema\<close> is nil, and else the result of
  \<^verbatim>\<open>Acquire\<close>. The events are in the order of one run in which the merge goroutine runs
  after the build goroutine has returned; \<open>merged\<close> is what \<^verbatim>\<open>MergeLoop\<close> logged. The
  result is the events, and the panic of a run that ends in one (the deferred
  \<^verbatim>\<open>close(fin)\<close> runs before the process ends) or the state the goroutines leave.
\<close>

definition buildFilesJob ::
  "err option option \<Rightarrow> (Domain \<Rightarrow> err + 'tx) \<Rightarrow> (Domain \<Rightarrow> 'tx \<Rightarrow> u64) \<Rightarrow> (Domain \<Rightarrow> 'tx \<Rightarrow> u64)
   \<Rightarrow> ('f Aggregator \<Rightarrow> u64 \<Rightarrow> err option \<times> 'f Aggregator)
   \<Rightarrow> bool \<Rightarrow> ('f, 'db, 'h, 'ds, 'is) FileOps \<Rightarrow> ('f, 'db, 'h, 'ds, 'is, 'o, 'm) MergeOps \<Rightarrow> Domain list
   \<Rightarrow> u64 \<Rightarrow> 'f Aggregator \<Rightarrow> (event list \<times> (panic + 'f Aggregator)) option" where
  "buildFilesJob semaAcquire View maxStepInDB maxStepInDBNoHistory buildFiles noMerge ops mops StateDomains step a =
     (case semaAcquire of
        Some (Some e) \<Rightarrow>
          Some ([LogWarn ''[snapshots] buildFilesInBackground'' e, CloseFin],
                Inr (a\<lparr>buildingFiles := False\<rparr>))
      | _ \<Rightarrow>
          (case lastInDB View maxStepInDB maxStepInDBNoHistory of
             (lastStep, logged) \<Rightarrow>
               (let info = logged @ [LogInfo ''BuildFilesInBackground'']
                in if \<not> lastStep > step then Some (info @ [CloseFin], Inr (a\<lparr>buildingFiles := False\<rparr>))
                   else (case buildLoop buildFiles step lastStep a of
                           ((tr, a'), LoopReturned) \<Rightarrow> Some (info @ tr, Inr (a'\<lparr>buildingFiles := False\<rparr>))
                         | ((tr, a'), _) \<Rightarrow>
                             (case MergeLoop noMerge ops mops StateDomains (a'\<lparr>buildingFiles := False\<rparr>) of
                                None \<Rightarrow> None
                              | Some (merged, Inl p) \<Rightarrow> Some (info @ tr @ merged @ [CloseFin], Inl p)
                              | Some (merged, Inr (merr, a'')) \<Rightarrow>
                                  Some (info @ tr @ merged
                                        @ (case merr of
                                             None \<Rightarrow> []
                                           | Some e \<Rightarrow> if isCancel e then []
                                                       else [LogWarn ''[snapshots] merge'' e])
                                        @ [CloseFin], Inr a''))))))"

subsection \<open>BuildFiles2\<close>

text \<open>
  \<^verbatim>\<open>func (a *Aggregator) BuildFiles2(ctx context.Context, fromStep, toStep uint64) error {
      if ok := a.buildingFiles.CompareAndSwap(false, true); !ok { return nil }
      go func() {
          defer a.buildingFiles.Store(false)
          if toStep > fromStep { log.Info("[agg] build", "fromStep", fromStep, "toStep", toStep) }
          for step := fromStep; step < toStep; step++ {
              if err := a.buildFiles(ctx, step); err != nil {
                  if errors.Is(err, context.Canceled) || errors.Is(err, common2.ErrStopped) {
                      panic(err)
                  }
                  a.logger.Warn("[snapshots] buildFilesInBackground", "err", err)
                  panic(err)
              }
          }
          go func() { if err := a.MergeLoop(ctx); err != nil { panic(err) } }()
      }()
      return nil }\<close>
  The caller's part says whether the goroutine was started; it has no channel to close.
  The loop gives the error it panicked with, if it did; \<^verbatim>\<open>panic(err)\<close> is the panic
  \<open>PanicErr err\<close>.
\<close>

definition BuildFiles2 :: "'f Aggregator \<Rightarrow> 'f Aggregator \<times> bool" where
  "BuildFiles2 a = (if buildingFiles a then (a, False) else (a\<lparr>buildingFiles := True\<rparr>, True))"




subsection \<open>Concrete instances\<close>

text \<open>
  A small aggregator with step size 100 whose visible files end at txNum 200, and a read
  handle on it: the DB state is the number of rows left to prune, a domain prunes up to
  \<open>limit\<close> of them and reports how many, every domain has visible files up to 200 except
  Commitment (up to 100), and there are no inverted indices.
\<close>

definition ex_agg :: "unit Aggregator" where
  "ex_agg = \<lparr>aggregationStep = 100, visibleFilesMinimaxTxNum = 200,
     commitmentValuesTransform = True, buildingFiles = False, mergingFiles = False,
     ctxCancel = Some (), ctxDone = False, produce = True,
     domainIds = [AccountsDomain, StorageDomain, CodeDomain, CommitmentDomain],
     iisLen = 0, leakDetector = {7}, aggRoTxAutoIncrement = 1, files = ()\<rparr>"

text \<open>The names of the domains in file names.\<close>

definition ex_domainString :: "Domain \<Rightarrow> string" where
  "ex_domainString d =
     (case d of AccountsDomain \<Rightarrow> ''accounts'' | StorageDomain \<Rightarrow> ''storage''
      | CodeDomain \<Rightarrow> ''code'' | CommitmentDomain \<Rightarrow> ''commitment'' | OtherDomain n \<Rightarrow> ''other'')"

definition ex_dom :: "string \<Rightarrow> u64 \<Rightarrow> MergeRange \<Rightarrow> (unit, u64, unit, u64) DomainRoTx" where
  "ex_dom name e lmr = \<lparr>files_EndTxNum = e, files_LatestMergedRange = lmr,
     d_filenameBase = name,
     d_findMergeRange = (\<lambda>maxEndTxNum maxSpan.
        \<lparr>dr_values = \<lparr>needMerge = False, mr_from = 0, mr_to = maxEndTxNum\<rparr>, dr_rest = ()\<rparr>),
     lookupDirtyFileByItsRange = (\<lambda>from to. False),
     CanPruneUntil = (\<lambda>tx untilTx. 0 < tx),
     d_Prune = (\<lambda>tx step txFrom txTo limit. ((Some (min tx limit), None), tx - min tx limit)),
     d_Close = (\<lambda>f. f)\<rparr>"

definition ex_rotx :: "(unit, u64, unit, u64, u64) AggregatorRoTx" where
  "ex_rotx = \<lparr>rotx_a = Some (),
     rotx_d = (\<lambda>d. if d = CommitmentDomain
                  then ex_dom (ex_domainString d) 100 \<lparr>needMerge = False, mr_from = 0, mr_to = 100\<rparr>
                  else ex_dom (ex_domainString d) 200 \<lparr>needMerge = False, mr_from = 0, mr_to = 200\<rparr>),
     rotx_iis = [], rotx_id = 1, rotx_leakID = 7\<rparr>"

text \<open>A disk that holds no file at all.\<close>

definition ex_noFiles :: "string \<Rightarrow> err + bool" where
  "ex_noFiles path = Inr False"

definition ex_dirs :: Dirs where
  "ex_dirs = \<lparr>SnapDomain = ''snapshots/domain''\<rparr>"

text \<open>A disk that holds exactly the Commitment file of steps 0-1.\<close>

definition ex_oneFile :: "string \<Rightarrow> err + bool" where
  "ex_oneFile path = Inr (path = ''snapshots/domain/v1-commitment.0-1.kv'')"

text \<open>Two merge ranges are equal when they have the same bounds.\<close>

definition ex_Equal :: "MergeRange \<Rightarrow> MergeRange \<Rightarrow> bool" where
  "ex_Equal x y = (mr_from x = mr_from y \<and> mr_to x = mr_to y)"




text \<open>
  A DB whose read views open, with Accounts at step 5, Code at step 3, Storage and
  Commitment at step 4. A \<^verbatim>\<open>buildFiles\<close> that succeeds and makes the step visible, and one
  that is cancelled at step \<open>k\<close>.
\<close>

definition ex_View :: "Domain \<Rightarrow> err + unit" where
  "ex_View d = Inr ()"

definition ex_maxStepInDB :: "Domain \<Rightarrow> unit \<Rightarrow> u64" where
  "ex_maxStepInDB d tx = (if d = AccountsDomain then 5 else if d = CodeDomain then 3 else 4)"

definition ex_buildFiles :: "'f Aggregator \<Rightarrow> u64 \<Rightarrow> err option \<times> 'f Aggregator" where
  "ex_buildFiles a step = (None, a\<lparr>visibleFilesMinimaxTxNum := (step + 1) * aggregationStep a\<rparr>)"


text \<open>
  File sets that are just a counter of closed entities, and the methods on them: closing
  counts, the dirty and visible files of every domain end at txNum 200.
\<close>

definition ex_ops :: "(nat, u64, unit, u64, u64) FileOps" where
  "ex_ops = \<lparr>dom_Close = (\<lambda>d f. Suc f), idx_Close = (\<lambda>i f. Suc f),
     dom_dirtyFilesEndTxNumMinimax = (\<lambda>d f. 200),
     dom_reCalcVisibleFiles = (\<lambda>d toTxNum f. f),
     idx_reCalcVisibleFiles = (\<lambda>i toTxNum f. f),
     dom_BeginFilesRo = (\<lambda>d f.
        (\<lparr>files_EndTxNum = 200, files_LatestMergedRange = zeroMergeRange,
          d_filenameBase = ex_domainString d,
          d_findMergeRange = (\<lambda>maxEndTxNum maxSpan. \<lparr>dr_values = zeroMergeRange, dr_rest = ()\<rparr>),
          lookupDirtyFileByItsRange = (\<lambda>from to. False),
          CanPruneUntil = (\<lambda>tx untilTx. False),
          d_Prune = (\<lambda>tx step txFrom txTo limit. ((None, None), tx)),
          d_Close = (\<lambda>f. f)\<rparr>, f)),
     idx_BeginFilesRo = (\<lambda>i f.
        (\<lparr>ii_filenameBase = ''idx'', ii_findMergeRange = (\<lambda>maxEndTxNum maxSpan. None),
          ii_CanPrune = (\<lambda>tx. False),
          ii_Prune = (\<lambda>tx txFrom txTo limit. ((None, None), tx)),
          ii_Close = (\<lambda>f. f)\<rparr>, f)),
     leak_Add = (\<lambda>ids. 9)\<rparr>"

definition ex_agg_open :: "nat Aggregator" where
  "ex_agg_open = \<lparr>aggregationStep = 100, visibleFilesMinimaxTxNum = 0,
     commitmentValuesTransform = True, buildingFiles = False, mergingFiles = False,
     ctxCancel = Some (), ctxDone = False, produce = True,
     domainIds = [AccountsDomain, StorageDomain, CodeDomain, CommitmentDomain],
     iisLen = 1, leakDetector = {}, aggRoTxAutoIncrement = 0, files = 0\<rparr>"

text \<open>
  Merging on these file sets: the state domains, the operations of a merge that changes
  no file set, and one whose context is cancelled while its group merges. Read handles
  whose domains all propose to merge the txNums 0 to 200, on an aggregator without
  inverted indices.
\<close>

definition ex_StateDomains :: "Domain list" where
  "ex_StateDomains = [AccountsDomain, StorageDomain, CodeDomain, CommitmentDomain]"

definition ex_merge :: "(nat, u64, unit, u64, u64, unit, unit) MergeOps" where
  "ex_merge = \<lparr>StepsInFrozenFile = 64, mr_Equal = ex_Equal,
     dr_any = (\<lambda>dr. needMerge (dr_values dr)),
     StaticFilesInRange = (\<lambda>at r. ((), None)),
     outs_Close = (\<lambda>outs f. f),
     errgroup_Wait = (\<lambda>at outs r f. (((), None), f)),
     mf_Close = (\<lambda>mf f. f),
     dom_integrateMergedDirtyFiles = (\<lambda>d outs mf f. f),
     idx_integrateMergedDirtyFiles = (\<lambda>i outs mf f. f),
     dom_cleanAfterMerge = (\<lambda>d mf f. f),
     idx_cleanAfterMerge = (\<lambda>i mf f. f)\<rparr>"




section \<open>Steps cover half-open txNum ranges\<close>

lemma unat_firstTxNumOfStep:
  fixes S sz :: u64
  assumes "unat S * unat sz < 2 ^ 64"
  shows "unat (firstTxNumOfStep S sz) = unat S * unat sz"
  using assms by (simp add: firstTxNumOfStep_def unat_mult_lem [THEN iffD1])

lemma unat_lastTxNumOfStep:
  fixes S sz :: u64
  assumes nz: "sz \<noteq> 0" and le: "(unat S + 1) * unat sz \<le> 2 ^ 64"
  shows "unat (lastTxNumOfStep S sz) = (unat S + 1) * unat sz - 1"
proof -
  let ?N = "(unat S + 1) * unat sz"
  have pos: "1 \<le> ?N" using nz by (simp add: unat_gt_0 Suc_leI)
  have "lastTxNumOfStep S sz = (of_nat (unat S) + 1) * of_nat (unat sz) - 1"
    by (simp add: lastTxNumOfStep_def firstTxNumOfStep_def)
  also have "\<dots> = of_nat ?N - 1" by (simp add: algebra_simps)
  also have "\<dots> = of_nat (?N - 1)" using pos by (simp add: of_nat_diff)
  finally have "lastTxNumOfStep S sz = (of_nat (?N - 1) :: u64)" .
  then have "unat (lastTxNumOfStep S sz) = (?N - 1) mod 2 ^ 64"
    by (simp add: unat_of_nat)
  also have "\<dots> = ?N - 1" using le pos by simp
  finally show ?thesis .
qed

lemma step_interval_nat:
  fixes S sz t :: u64
  assumes nz: "sz \<noteq> 0" and le: "(unat S + 1) * unat sz \<le> 2 ^ 64"
  shows "(firstTxNumOfStep S sz \<le> t \<and> t \<le> lastTxNumOfStep S sz) =
         (unat S * unat sz \<le> unat t \<and> unat t < (unat S + 1) * unat sz)"
proof -
  have pos: "0 < unat sz" using nz by (simp add: unat_gt_0)
  then have lt: "unat S * unat sz < 2 ^ 64" using le by simp
  have pos2: "1 \<le> (unat S + 1) * unat sz" using pos by (simp add: Suc_leI)
  show ?thesis
    unfolding word_le_nat_alt unat_firstTxNumOfStep [OF lt] unat_lastTxNumOfStep [OF nz le]
    using pos2 by auto
qed

lemma nat_div_eq_iff:
  fixes a b q :: nat
  assumes "0 < b"
  shows "(a div b = q) = (q * b \<le> a \<and> a < (q + 1) * b)"
proof
  assume "a div b = q"
  then have q: "q = a div b" by simp
  have "a div b * b \<le> a" by simp
  moreover have "a < (a div b + 1) * b"
    using assms dividend_less_div_times [of b a] by (simp add: algebra_simps)
  ultimately show "q * b \<le> a \<and> a < (q + 1) * b" unfolding q by simp
next
  assume "q * b \<le> a \<and> a < (q + 1) * b"
  then show "a div b = q" by (intro div_nat_eqI) (simp_all add: algebra_simps)
qed

lemma step_interval_div:
  fixes S sz t :: u64
  assumes nz: "sz \<noteq> 0" and le: "(unat S + 1) * unat sz \<le> 2 ^ 64"
  shows "(firstTxNumOfStep S sz \<le> t \<and> t \<le> lastTxNumOfStep S sz) = (t div sz = S)"
proof -
  have pos: "0 < unat sz" using nz by (simp add: unat_gt_0)
  have "(t div sz = S) = (unat (t div sz) = unat S)" by (simp add: word_unat_eq_iff)
  also have "\<dots> = (unat t div unat sz = unat S)" by (simp add: unat_div)
  also have "\<dots> = (unat S * unat sz \<le> unat t \<and> unat t < (unat S + 1) * unat sz)"
    using nat_div_eq_iff [OF pos] by simp
  finally show ?thesis using step_interval_nat [OF nz le] by simp
qed

lemma file_range_div_nat:
  fixes b f t u :: nat
  assumes "0 < b"
  shows "(f * b \<le> u \<and> u < t * b) = (f \<le> u div b \<and> u div b < t)"
  using assms by (simp add: less_eq_div_iff_mult_less_eq div_less_iff_less_mult)

lemma inFileTxNumRange_div:
  fixes fromStep toStep t sz :: u64
  assumes nz: "sz \<noteq> 0"
  shows "inFileTxNumRange (unat sz) (unat fromStep) (unat toStep) (unat t)
           = (fromStep \<le> t div sz \<and> t div sz < toStep)"
proof -
  have pos: "0 < unat sz" using nz by (simp add: unat_gt_0)
  show ?thesis
    by (simp add: inFileTxNumRange_def fileTxNumRange_def file_range_div_nat [OF pos]
        word_le_nat_alt word_less_nat_alt unat_div)
qed

lemma inFileTxNumRange_steps:
  fixes fromStep toStep t sz :: u64
  assumes nz: "sz \<noteq> 0" and le: "unat toStep * unat sz \<le> 2 ^ 64"
  shows "inFileTxNumRange (unat sz) (unat fromStep) (unat toStep) (unat t)
           = (\<exists>S. fromStep \<le> S \<and> S < toStep
                  \<and> firstTxNumOfStep S sz \<le> t \<and> t \<le> lastTxNumOfStep S sz)"
proof -
  have step: "(firstTxNumOfStep S sz \<le> t \<and> t \<le> lastTxNumOfStep S sz) = (t div sz = S)"
    if "S < toStep" for S
  proof -
    from that have "unat S + 1 \<le> unat toStep" by (simp add: word_less_nat_alt)
    then have "(unat S + 1) * unat sz \<le> unat toStep * unat sz" by (rule mult_le_mono1)
    with le have "(unat S + 1) * unat sz \<le> 2 ^ 64" by simp
    from step_interval_div [OF nz this] show ?thesis .
  qed
  have "(\<exists>S. fromStep \<le> S \<and> S < toStep
                  \<and> firstTxNumOfStep S sz \<le> t \<and> t \<le> lastTxNumOfStep S sz)
        = (\<exists>S. fromStep \<le> S \<and> S < toStep \<and> t div sz = S)"
    using step by blast
  also have "\<dots> = (fromStep \<le> t div sz \<and> t div sz < toStep)" by blast
  finally show ?thesis using inFileTxNumRange_div [OF nz] by simp
qed

lemma fileTxNumRange_FirstTxNumOfStep:
  fixes fromStep toStep :: u64 and a :: "'f Aggregator"
  assumes le: "fromStep \<le> toStep" and lt: "unat toStep * unat (StepSize a) < 2 ^ 64"
  shows "fileTxNumRange (unat (StepSize a)) (unat fromStep) (unat toStep)
           = (unat (FirstTxNumOfStep a fromStep), unat (FirstTxNumOfStep a toStep))"
proof -
  from le have "unat fromStep \<le> unat toStep" by (simp add: word_le_nat_alt)
  then have "unat fromStep * unat (StepSize a) \<le> unat toStep * unat (StepSize a)"
    by (rule mult_le_mono1)
  from this lt have lt': "unat fromStep * unat (StepSize a) < 2 ^ 64" by (rule le_less_trans)
  show ?thesis
    by (simp add: fileTxNumRange_def FirstTxNumOfStep_def unat_firstTxNumOfStep [OF lt]
        unat_firstTxNumOfStep [OF lt'])
qed

lemma fileTxNumRange_built:
  fixes S :: u64 and a :: "'f Aggregator"
  assumes lt: "(unat S + 1) * unat (StepSize a) < 2 ^ 64" and nz: "StepSize a \<noteq> 0"
  shows "fileTxNumRange (unat (StepSize a)) (unat S) (unat S + 1)
           = (unat (fst (buildFiles_txRange a S)), unat (snd (buildFiles_txRange a S)))"
proof -
  have pos: "0 < unat (StepSize a)" using nz by (simp add: unat_gt_0)
  from pos have "1 \<le> unat (StepSize a)" by simp
  then have "(unat S + 1) * 1 \<le> (unat S + 1) * unat (StepSize a)" by (rule mult_le_mono2)
  then have "unat S + 1 \<le> (unat S + 1) * unat (StepSize a)" by simp
  from this lt have "unat S + 1 < 2 ^ 64" by (rule le_less_trans)
  then have S1: "unat (S + 1) = unat S + 1"
    using unat_add_lem [of S 1] by simp
  have "unat S * unat (StepSize a) \<le> (unat S + 1) * unat (StepSize a)" by simp
  with lt have lt0: "unat S * unat (StepSize a) < 2 ^ 64" by simp
  from lt S1 have lt1: "unat (S + 1) * unat (StepSize a) < 2 ^ 64" by simp
  show ?thesis
    by (simp add: fileTxNumRange_def buildFiles_txRange_def FirstTxNumOfStep_def
        unat_firstTxNumOfStep [OF lt0] unat_firstTxNumOfStep [OF lt1] S1)
qed

text \<open>
  Claim C8. Step \<open>S\<close> of an aggregator with step size \<open>stepSize\<close> starts at txNum
  \<open>S * stepSize\<close> and its last txNum is \<open>(S + 1) * stepSize - 1\<close> (in \<^verbatim>\<open>uint64\<close>
  arithmetic); the files built for step \<open>S\<close>, identified by \<open>(S, S + 1)\<close>, carry the range
  from \<open>S * stepSize\<close> to \<open>(S + 1) * stepSize\<close>, end excluded. Where the step size is not
  zero and the products do not overflow, the txNums from the first to the last of step
  \<open>S\<close> are exactly those of the half-open interval \<open>[S * stepSize, (S + 1) * stepSize)\<close>,
  which are exactly the txNums \<open>t\<close> with \<open>t / stepSize = S\<close>.
  The range of a file identified by any \<open>(fromStep, toStep)\<close> is the half-open interval
  \<open>[fromStep * stepSize, toStep * stepSize)\<close>: its bounds are what the code gives as the
  first txNums of \<open>fromStep\<close> and of \<open>toStep\<close>, for \<open>(S, S + 1)\<close> they are the range the
  code builds the files of step \<open>S\<close> with, and the txNums of the file are exactly the
  txNums of the steps from \<open>fromStep\<close> up to \<open>toStep\<close>, end excluded.
\<close>

theorem step_txNum_range:
  fixes S t fromStep toStep :: u64 and a :: "'f Aggregator"
  shows "FirstTxNumOfStep a S = S * StepSize a
       \<and> firstTxNumOfStep S (StepSize a) = S * StepSize a
       \<and> lastTxNumOfStep S (StepSize a) = (S + 1) * StepSize a - 1
       \<and> buildFiles_txRange a S = (S * StepSize a, (S + 1) * StepSize a)
       \<and> (StepSize a \<noteq> 0 \<and> (unat S + 1) * unat (StepSize a) \<le> 2 ^ 64 \<longrightarrow>
            ((firstTxNumOfStep S (StepSize a) \<le> t \<and> t \<le> lastTxNumOfStep S (StepSize a))
               = (unat S * unat (StepSize a) \<le> unat t \<and> unat t < (unat S + 1) * unat (StepSize a)))
          \<and> ((firstTxNumOfStep S (StepSize a) \<le> t \<and> t \<le> lastTxNumOfStep S (StepSize a))
               = (t div StepSize a = S)))
       \<and> fileTxNumRange (unat (StepSize a)) (unat fromStep) (unat toStep)
            = (unat fromStep * unat (StepSize a), unat toStep * unat (StepSize a))
       \<and> (fromStep \<le> toStep \<and> unat toStep * unat (StepSize a) < 2 ^ 64 \<longrightarrow>
            fileTxNumRange (unat (StepSize a)) (unat fromStep) (unat toStep)
              = (unat (FirstTxNumOfStep a fromStep), unat (FirstTxNumOfStep a toStep)))
       \<and> (StepSize a \<noteq> 0 \<and> (unat S + 1) * unat (StepSize a) < 2 ^ 64 \<longrightarrow>
            fileTxNumRange (unat (StepSize a)) (unat S) (unat S + 1)
              = (unat (fst (buildFiles_txRange a S)), unat (snd (buildFiles_txRange a S))))
       \<and> (StepSize a \<noteq> 0 \<longrightarrow>
            inFileTxNumRange (unat (StepSize a)) (unat fromStep) (unat toStep) (unat t)
              = (fromStep \<le> t div StepSize a \<and> t div StepSize a < toStep))
       \<and> (StepSize a \<noteq> 0 \<and> unat toStep * unat (StepSize a) \<le> 2 ^ 64 \<longrightarrow>
            inFileTxNumRange (unat (StepSize a)) (unat fromStep) (unat toStep) (unat t)
              = (\<exists>S'. fromStep \<le> S' \<and> S' < toStep
                      \<and> firstTxNumOfStep S' (StepSize a) \<le> t
                      \<and> t \<le> lastTxNumOfStep S' (StepSize a)))"
proof -
  have eqs: "FirstTxNumOfStep a S = S * StepSize a"
    "firstTxNumOfStep S (StepSize a) = S * StepSize a"
    "lastTxNumOfStep S (StepSize a) = (S + 1) * StepSize a - 1"
    "buildFiles_txRange a S = (S * StepSize a, (S + 1) * StepSize a)"
    by (simp_all add: FirstTxNumOfStep_def firstTxNumOfStep_def lastTxNumOfStep_def
        buildFiles_txRange_def)
  have step: "StepSize a \<noteq> 0 \<and> (unat S + 1) * unat (StepSize a) \<le> 2 ^ 64 \<longrightarrow>
            ((firstTxNumOfStep S (StepSize a) \<le> t \<and> t \<le> lastTxNumOfStep S (StepSize a))
               = (unat S * unat (StepSize a) \<le> unat t \<and> unat t < (unat S + 1) * unat (StepSize a)))
          \<and> ((firstTxNumOfStep S (StepSize a) \<le> t \<and> t \<le> lastTxNumOfStep S (StepSize a))
               = (t div StepSize a = S))"
    using step_interval_nat [of "StepSize a" S t] step_interval_div [of "StepSize a" S t]
    by blast
  have f1: "fileTxNumRange (unat (StepSize a)) (unat fromStep) (unat toStep)
            = (unat fromStep * unat (StepSize a), unat toStep * unat (StepSize a))"
    by (simp add: fileTxNumRange_def)
  have f2: "fromStep \<le> toStep \<and> unat toStep * unat (StepSize a) < 2 ^ 64 \<longrightarrow>
            fileTxNumRange (unat (StepSize a)) (unat fromStep) (unat toStep)
              = (unat (FirstTxNumOfStep a fromStep), unat (FirstTxNumOfStep a toStep))"
    using fileTxNumRange_FirstTxNumOfStep [of fromStep toStep a] by blast
  have f3: "StepSize a \<noteq> 0 \<and> (unat S + 1) * unat (StepSize a) < 2 ^ 64 \<longrightarrow>
            fileTxNumRange (unat (StepSize a)) (unat S) (unat S + 1)
              = (unat (fst (buildFiles_txRange a S)), unat (snd (buildFiles_txRange a S)))"
    using fileTxNumRange_built [of S a] by blast
  have f4: "StepSize a \<noteq> 0 \<longrightarrow>
            inFileTxNumRange (unat (StepSize a)) (unat fromStep) (unat toStep) (unat t)
              = (fromStep \<le> t div StepSize a \<and> t div StepSize a < toStep)"
    using inFileTxNumRange_div [of "StepSize a" fromStep toStep t] by blast
  have f5: "StepSize a \<noteq> 0 \<and> unat toStep * unat (StepSize a) \<le> 2 ^ 64 \<longrightarrow>
            inFileTxNumRange (unat (StepSize a)) (unat fromStep) (unat toStep) (unat t)
              = (\<exists>S'. fromStep \<le> S' \<and> S' < toStep
                      \<and> firstTxNumOfStep S' (StepSize a) \<le> t
                      \<and> t \<le> lastTxNumOfStep S' (StepSize a))"
    using inFileTxNumRange_steps [of "StepSize a" toStep fromStep t] by blast
  show ?thesis
  proof (intro conjI)
    show "FirstTxNumOfStep a S = S * StepSize a" by (rule eqs(1))
    show "firstTxNumOfStep S (StepSize a) = S * StepSize a" by (rule eqs(2))
    show "lastTxNumOfStep S (StepSize a) = (S + 1) * StepSize a - 1" by (rule eqs(3))
    show "buildFiles_txRange a S = (S * StepSize a, (S + 1) * StepSize a)" by (rule eqs(4))
  qed (rule step f1 f2 f3 f4 f5)+
qed

theorem step_txNum_range_witness:
  "StepSize ex_agg \<noteq> 0 \<and> (unat (2 :: u64) + 1) * unat (StepSize ex_agg) \<le> 2 ^ 64
   \<and> FirstTxNumOfStep ex_agg 2 = 200
   \<and> lastTxNumOfStep 2 (StepSize ex_agg) = 299
   \<and> buildFiles_txRange ex_agg 2 = (200, 300)
   \<and> firstTxNumOfStep 2 (StepSize ex_agg) \<le> 250 \<and> 250 \<le> lastTxNumOfStep 2 (StepSize ex_agg)
   \<and> (250 :: u64) div StepSize ex_agg = 2
   \<and> (2 :: u64) \<le> 4 \<and> unat (4 :: u64) * unat (StepSize ex_agg) < 2 ^ 64
   \<and> fileTxNumRange (unat (StepSize ex_agg)) (unat (2 :: u64)) (unat (4 :: u64)) = (200, 400)
   \<and> unat (FirstTxNumOfStep ex_agg 2) = 200 \<and> unat (FirstTxNumOfStep ex_agg 4) = 400
   \<and> fileTxNumRange (unat (StepSize ex_agg)) (unat (2 :: u64)) (unat (2 :: u64) + 1)
        = (unat (fst (buildFiles_txRange ex_agg 2)), unat (snd (buildFiles_txRange ex_agg 2)))
   \<and> inFileTxNumRange (unat (StepSize ex_agg)) (unat (2 :: u64)) (unat (4 :: u64)) (unat (250 :: u64))
   \<and> (2 :: u64) \<le> 250 div StepSize ex_agg \<and> (250 :: u64) div StepSize ex_agg < 4
   \<and> (\<exists>S'. (2 :: u64) \<le> S' \<and> S' < 4 \<and> firstTxNumOfStep S' (StepSize ex_agg) \<le> 250
             \<and> 250 \<le> lastTxNumOfStep S' (StepSize ex_agg))"
proof -
  note t = step_txNum_range [of ex_agg 2 250 2 4]
  have sz: "StepSize ex_agg = 100" by (simp add: ex_agg_def StepSize_def)
  have h: "StepSize ex_agg \<noteq> 0" "(unat (2 :: u64) + 1) * unat (StepSize ex_agg) \<le> 2 ^ 64"
    "(2 :: u64) \<le> 4" "unat (4 :: u64) * unat (StepSize ex_agg) < 2 ^ 64"
    "unat (4 :: u64) * unat (StepSize ex_agg) \<le> 2 ^ 64"
    "(unat (2 :: u64) + 1) * unat (StepSize ex_agg) < 2 ^ 64"
    by (simp_all add: sz)
  have d: "(250 :: u64) div StepSize ex_agg = 2" by (simp add: sz)
  have i: "inFileTxNumRange (unat (StepSize ex_agg)) (unat (2 :: u64)) (unat (4 :: u64)) (unat (250 :: u64))"
    by (simp add: sz inFileTxNumRange_def fileTxNumRange_def)
  from t h d have c1: "FirstTxNumOfStep ex_agg 2 = 200" "lastTxNumOfStep 2 (StepSize ex_agg) = 299"
    "buildFiles_txRange ex_agg 2 = (200, 300)"
    by (simp_all add: sz)
  from t h d have c2: "firstTxNumOfStep 2 (StepSize ex_agg) \<le> 250 \<and> 250 \<le> lastTxNumOfStep 2 (StepSize ex_agg)"
    by blast
  from t have c3: "fileTxNumRange (unat (StepSize ex_agg)) (unat (2 :: u64)) (unat (4 :: u64)) = (200, 400)"
    by (simp add: sz)
  from t h have "fileTxNumRange (unat (StepSize ex_agg)) (unat (2 :: u64)) (unat (4 :: u64))
      = (unat (FirstTxNumOfStep ex_agg 2), unat (FirstTxNumOfStep ex_agg 4))"
    by blast
  with c3 have "(unat (FirstTxNumOfStep ex_agg 2), unat (FirstTxNumOfStep ex_agg 4)) = (200, 400)"
    by (metis (no_types))
  then have c4: "unat (FirstTxNumOfStep ex_agg 2) = 200 \<and> unat (FirstTxNumOfStep ex_agg 4) = 400"
    by (simp only: prod.inject)
  from t h have c5: "fileTxNumRange (unat (StepSize ex_agg)) (unat (2 :: u64)) (unat (2 :: u64) + 1)
        = (unat (fst (buildFiles_txRange ex_agg 2)), unat (snd (buildFiles_txRange ex_agg 2)))"
    by blast
  from t h i have c6: "(2 :: u64) \<le> 250 div StepSize ex_agg \<and> (250 :: u64) div StepSize ex_agg < 4"
    by blast
  from t h i have c7: "\<exists>S'. (2 :: u64) \<le> S' \<and> S' < 4 \<and> firstTxNumOfStep S' (StepSize ex_agg) \<le> 250
             \<and> 250 \<le> lastTxNumOfStep S' (StepSize ex_agg)"
    by blast
  from h d i c1 c2 c3 c4 c5 c6 c7 show ?thesis by blast
qed

section \<open>TxNumsInFiles and StepsInFiles\<close>

lemma TxNumsInFiles_loop_Min:
  assumes "set es \<subseteq> set (domainIds agg)"
  shows "TxNumsInFiles_loop agg at False m es
     = Inr (Min (insert m ((\<lambda>d. files_EndTxNum (rotx_d at d)) ` set es)))"
  using assms
proof (induction es arbitrary: m)
  case Nil
  show ?case by simp
next
  case (Cons d es)
  let ?e = "files_EndTxNum (rotx_d at d)"
  let ?E = "(\<lambda>d. files_EndTxNum (rotx_d at d)) ` set es"
  have fin: "finite ?E" by simp
  from Cons.prems have d: "rotx_d_index agg at d = Inr (rotx_d at d)"
    and rest: "set es \<subseteq> set (domainIds agg)"
    by (simp_all add: rotx_d_index_def)
  have "TxNumsInFiles_loop agg at False m (d # es) = Inr (Min (insert (if ?e < m then ?e else m) ?E))"
    using Cons.IH [OF rest] by (simp add: d Let_def)
  also have "(if ?e < m then ?e else m) = min ?e m" by (auto simp: min_def)
  also have "Min (insert (min ?e m) ?E) = Min (insert m (insert ?e ?E))"
  proof (cases "?E = {}")
    case True
    then show ?thesis by (simp add: min.commute)
  next
    case False
    then show ?thesis using fin by (simp add: min.assoc min.left_commute min.commute)
  qed
  finally show ?case by simp
qed

lemma TxNumsInFiles_loop_outside:
  assumes "\<not> set es \<subseteq> set (domainIds agg)"
  shows "TxNumsInFiles_loop agg at first m es = Inl IndexOutOfRange"
  using assms
proof (induction es arbitrary: first m)
  case Nil
  then show ?case by simp
next
  case (Cons d es)
  show ?case
  proof (cases "d \<in> set (domainIds agg)")
    case False
    then show ?thesis by (simp add: rotx_d_index_def)
  next
    case True
    with Cons.prems have "\<not> set es \<subseteq> set (domainIds agg)" by simp
    from Cons.IH [OF this] True show ?thesis by (simp add: rotx_d_index_def Let_def)
  qed
qed

lemma TxNumsInFiles_nonempty:
  assumes "es \<noteq> []" and "set es \<subseteq> set (domainIds agg)"
  shows "TxNumsInFiles agg at es = Inr (Min ((\<lambda>d. files_EndTxNum (rotx_d at d)) ` set es))"
proof -
  from assms(1) obtain d ds where es: "es = d # ds" by (cases es) auto
  with assms(2) have d: "rotx_d_index agg at d = Inr (rotx_d at d)"
    and rest: "set ds \<subseteq> set (domainIds agg)"
    by (simp_all add: rotx_d_index_def)
  have "TxNumsInFiles agg at es = TxNumsInFiles_loop agg at False (files_EndTxNum (rotx_d at d)) ds"
    by (simp add: es TxNumsInFiles_def d Let_def)
  then show ?thesis by (simp add: TxNumsInFiles_loop_Min [OF rest] es)
qed

lemma TxNumsInFiles_outside:
  assumes "\<not> set es \<subseteq> set (domainIds agg)"
  shows "TxNumsInFiles agg at es = Inl IndexOutOfRange"
proof -
  from assms have "es \<noteq> []" by auto
  then show ?thesis by (simp add: TxNumsInFiles_def TxNumsInFiles_loop_outside [OF assms])
qed

text \<open>
  Claim C10, as stated, fails for an entity set that is not empty but lists a value of
  \<^verbatim>\<open>kv.Domain\<close> beyond the array \<^verbatim>\<open>at.d\<close>: \<^verbatim>\<open>at.d[domain]\<close> panics, and no minimum is
  returned.
\<close>

theorem TxNumsInFiles_outside_counterexample:
  "[AccountsDomain, OtherDomain 65535] \<noteq> []
   \<and> TxNumsInFiles ex_agg ex_rotx [AccountsDomain, OtherDomain 65535] = Inl IndexOutOfRange
   \<and> StepsInFiles ex_agg ex_rotx [AccountsDomain, OtherDomain 65535] = Inl IndexOutOfRange"
  by (simp add: StepsInFiles_def TxNumsInFiles_def rotx_d_index_def ex_agg_def Let_def)

text \<open>
  Claim C10, amended. \<^verbatim>\<open>TxNumsInFiles\<close> panics on an empty entity set. On a non-empty one
  whose domains are all indexes of the array \<^verbatim>\<open>at.d\<close> it returns the minimum, over the
  listed domains, of the domain's visible-files end txNum; when some listed domain is not
  an index of the array it panics (index out of range), and so does \<^verbatim>\<open>StepsInFiles\<close>.
  On a handle that is still open (\<^verbatim>\<open>at.a\<close> is not nil) of an aggregator whose step size
  is not zero, and for a non-empty entity set of indexes of the array, \<^verbatim>\<open>StepsInFiles\<close>
  returns that minimum minus one, divided by the step size, when the minimum is positive,
  and 0 when it is 0.
\<close>

theorem TxNumsInFiles_StepsInFiles:
  fixes at :: "('f, 'db, 'h, 'ds, 'is) AggregatorRoTx" and agg :: "'f Aggregator"
  shows "TxNumsInFiles agg at [] = Inl (PanicMsg ''assert: missed arguments'')
       \<and> StepsInFiles agg at [] = Inl (PanicMsg ''assert: missed arguments'')
       \<and> (es \<noteq> [] \<and> set es \<subseteq> set (domainIds agg) \<longrightarrow>
            TxNumsInFiles agg at es = Inr (Min ((\<lambda>d. files_EndTxNum (rotx_d at d)) ` set es)))
       \<and> (\<not> set es \<subseteq> set (domainIds agg) \<longrightarrow>
            TxNumsInFiles agg at es = Inl IndexOutOfRange
            \<and> StepsInFiles agg at es = Inl IndexOutOfRange)
       \<and> (es \<noteq> [] \<and> set es \<subseteq> set (domainIds agg) \<and> rotx_a at \<noteq> None \<and> StepSize agg \<noteq> 0 \<longrightarrow>
            StepsInFiles agg at es =
              Inr (let m = Min ((\<lambda>d. files_EndTxNum (rotx_d at d)) ` set es)
                   in if 0 < m then (m - 1) div StepSize agg else 0))"
proof -
  have p1: "TxNumsInFiles agg at [] = Inl (PanicMsg ''assert: missed arguments'')"
    by (simp add: TxNumsInFiles_def)
  have p2: "StepsInFiles agg at [] = Inl (PanicMsg ''assert: missed arguments'')"
    by (simp add: StepsInFiles_def p1)
  have p3: "es \<noteq> [] \<and> set es \<subseteq> set (domainIds agg) \<longrightarrow>
      TxNumsInFiles agg at es = Inr (Min ((\<lambda>d. files_EndTxNum (rotx_d at d)) ` set es))"
    using TxNumsInFiles_nonempty by blast
  have p4: "\<not> set es \<subseteq> set (domainIds agg) \<longrightarrow>
            TxNumsInFiles agg at es = Inl IndexOutOfRange
            \<and> StepsInFiles agg at es = Inl IndexOutOfRange"
    by (simp add: StepsInFiles_def TxNumsInFiles_outside)
  have p5: "es \<noteq> [] \<and> set es \<subseteq> set (domainIds agg) \<and> rotx_a at \<noteq> None \<and> StepSize agg \<noteq> 0 \<longrightarrow>
      StepsInFiles agg at es =
        Inr (let m = Min ((\<lambda>d. files_EndTxNum (rotx_d at d)) ` set es)
             in if 0 < m then (m - 1) div StepSize agg else 0)"
  proof (intro impI, elim conjE)
    assume ne: "es \<noteq> []" and inside: "set es \<subseteq> set (domainIds agg)"
      and open_handle: "rotx_a at \<noteq> None" and nz: "StepSize agg \<noteq> 0"
    from open_handle have ss: "rotx_StepSize agg at = Inr (StepSize agg)"
      by (auto simp: rotx_StepSize_def)
    show "StepsInFiles agg at es =
        Inr (let m = Min ((\<lambda>d. files_EndTxNum (rotx_d at d)) ` set es)
             in if 0 < m then (m - 1) div StepSize agg else 0)"
      using nz by (simp add: StepsInFiles_def TxNumsInFiles_nonempty [OF ne inside] ss go_div_def
          Let_def word_gt_0)
  qed
  from p1 p2 p3 p4 p5 show ?thesis by blast
qed

theorem TxNumsInFiles_StepsInFiles_witness:
  "[AccountsDomain, CommitmentDomain] \<noteq> [] \<and> rotx_a ex_rotx \<noteq> None \<and> StepSize ex_agg \<noteq> 0
   \<and> set [AccountsDomain, CommitmentDomain] \<subseteq> set (domainIds ex_agg)
   \<and> TxNumsInFiles ex_agg ex_rotx [AccountsDomain, CommitmentDomain] = Inr 100
   \<and> StepsInFiles ex_agg ex_rotx [AccountsDomain, CommitmentDomain] = Inr 0
   \<and> StepsInFiles ex_agg ex_rotx [AccountsDomain, StorageDomain] = Inr 1
   \<and> \<not> set [StorageDomain, OtherDomain 9] \<subseteq> set (domainIds ex_agg)
   \<and> TxNumsInFiles ex_agg ex_rotx [StorageDomain, OtherDomain 9] = Inl IndexOutOfRange"
  using TxNumsInFiles_StepsInFiles [of ex_agg ex_rotx "[AccountsDomain, CommitmentDomain]"]
    TxNumsInFiles_StepsInFiles [of ex_agg ex_rotx "[AccountsDomain, StorageDomain]"]
    TxNumsInFiles_StepsInFiles [of ex_agg ex_rotx "[StorageDomain, OtherDomain 9]"]
  by (simp add: ex_rotx_def ex_agg_def ex_dom_def StepSize_def)

section \<open>BuildFilesInBackground returns a closed channel\<close>

text \<open>
  Claim C3. \<^verbatim>\<open>BuildFilesInBackground(txNum)\<close> returns an already closed channel, starts no
  goroutine and leaves the aggregator as it was when \<^verbatim>\<open>produce\<close> is false, or when
  \<open>txNum + 1 \<le> visibleFilesMinimaxTxNum + aggregationStep\<close> (in \<^verbatim>\<open>uint64\<close> arithmetic), or
  when the compare-and-swap of \<^verbatim>\<open>buildingFiles\<close> from false to true fails, that is when
  the flag is already true.
\<close>

theorem BuildFilesInBackground_closed:
  assumes "\<not> produce a
         \<or> txNum + 1 \<le> visibleFilesMinimaxTxNum a + aggregationStep a
         \<or> buildingFiles a"
  shows "BuildFilesInBackground a txNum = Inr (a, FinClosed)"
  using assms by (auto simp: BuildFilesInBackground_def)

theorem BuildFilesInBackground_closed_witness:
  "(\<not> produce (ex_agg\<lparr>produce := False\<rparr>)
    \<and> BuildFilesInBackground (ex_agg\<lparr>produce := False\<rparr>) 1000 = Inr (ex_agg\<lparr>produce := False\<rparr>, FinClosed))
   \<and> ((299 :: u64) + 1 \<le> visibleFilesMinimaxTxNum ex_agg + aggregationStep ex_agg
    \<and> BuildFilesInBackground ex_agg 299 = Inr (ex_agg, FinClosed))
   \<and> (buildingFiles (ex_agg\<lparr>buildingFiles := True\<rparr>)
    \<and> BuildFilesInBackground (ex_agg\<lparr>buildingFiles := True\<rparr>) 1000
        = Inr (ex_agg\<lparr>buildingFiles := True\<rparr>, FinClosed))"
  using BuildFilesInBackground_closed [of "ex_agg\<lparr>produce := False\<rparr>" 1000]
    BuildFilesInBackground_closed [of ex_agg 299]
    BuildFilesInBackground_closed [of "ex_agg\<lparr>buildingFiles := True\<rparr>" 1000]
  by (simp add: ex_agg_def)

lemma BuildFilesInBackground_started:
  assumes "produce a" and "\<not> txNum + 1 \<le> visibleFilesMinimaxTxNum a + aggregationStep a"
    and "\<not> buildingFiles a" and "StepSize a \<noteq> 0"
  shows "BuildFilesInBackground a txNum
           = Inr (a\<lparr>buildingFiles := True\<rparr>, JobStarted (visibleFilesMinimaxTxNum a div StepSize a))"
  using assms by (simp add: BuildFilesInBackground_def go_div_def)


section \<open>The integrity check when a datadir is opened\<close>

text \<open>
  Claim C2, as stated, fails: a file of the Accounts domain that spans more than one step
  is accepted although no Commitment file of the same steps exists (the disk
  \<open>ex_noFiles\<close> holds no file at all).
\<close>

theorem domainIntegrityCheck_counterexample:
  "domainIntegrityCheck ex_noFiles ex_domainString AccountsDomain ex_dirs 0 2 = Inr True
   \<and> commitmentFileMustExist ex_noFiles ex_domainString ex_dirs 0 2 = Inr False"
  by (simp add: domainIntegrityCheck_def commitmentFileMustExist_def ex_noFiles_def)

text \<open>
  Claim C2, amended. The check accepts every file of a domain other than Accounts,
  Storage and Code, and every file of these three domains with \<open>toStep - fromStep > 1\<close>
  (in \<^verbatim>\<open>uint64\<close> arithmetic, so also when \<open>toStep < fromStep\<close>). A file of Accounts,
  Storage or Code with \<open>toStep - fromStep \<le> 1\<close> is accepted exactly when the file
  \<^verbatim>\<open>v1-<commitment>.<fromStep>-<toStep>.kv\<close> exists in the domain snapshot directory; when
  the existence probe fails, the check panics with its error.
\<close>

theorem domainIntegrityCheck_recent_files:
  "domainIntegrityCheck FileExist domainString name dirs fromStep toStep =
     (if name \<in> {AccountsDomain, StorageDomain, CodeDomain} \<and> toStep - fromStep \<le> 1
      then (case FileExist (filepath_Join (SnapDomain dirs)
                    (''v1-'' @ domainString CommitmentDomain @ ''.'' @ fmt_d fromStep
                       @ ''-'' @ fmt_d toStep @ ''.kv'')) of
              Inl e \<Rightarrow> Inl (PanicErr e)
            | Inr exists \<Rightarrow> Inr exists)
      else Inr True)"
  by (auto simp: domainIntegrityCheck_def commitmentFileMustExist_def commitmentFilePath_def
      not_less split: sum.splits)

theorem domainIntegrityCheck_recent_files_witness:
  "domainIntegrityCheck ex_oneFile ex_domainString AccountsDomain ex_dirs 0 1 = Inr True
   \<and> domainIntegrityCheck ex_oneFile ex_domainString StorageDomain ex_dirs 1 2 = Inr False
   \<and> domainIntegrityCheck ex_oneFile ex_domainString CodeDomain ex_dirs 0 64 = Inr True
   \<and> domainIntegrityCheck ex_oneFile ex_domainString CommitmentDomain ex_dirs 1 2 = Inr True"
  using domainIntegrityCheck_recent_files [of ex_oneFile ex_domainString AccountsDomain ex_dirs 0 1]
    domainIntegrityCheck_recent_files [of ex_oneFile ex_domainString StorageDomain ex_dirs 1 2]
    domainIntegrityCheck_recent_files [of ex_oneFile ex_domainString CodeDomain ex_dirs 0 64]
    domainIntegrityCheck_recent_files [of ex_oneFile ex_domainString CommitmentDomain ex_dirs 1 2]
  by (simp add: ex_oneFile_def ex_domainString_def ex_dirs_def fmt_d_def filepath_Join_def
      digit_char_def dec_nat.simps word_le_nat_alt)

section \<open>findMergeRange lowers the end bound\<close>

lemma couple_loop_keeps:
  assumes "couple_loop Equal at cr ks (r, b) = (r', b')"
  shows "dr_rest (r' d) = dr_rest (r d)
       \<and> (dr_values (r' d) = dr_values (r d) \<or> dr_values (r' d) = zeroMergeRange)"
  using assms
proof (induction ks arbitrary: r b)
  case Nil
  then show ?case by simp
next
  case (Cons k ks)
  let ?r2 = "r(k := (r k)\<lparr>dr_values := zeroMergeRange\<rparr>)"
  from Cons.prems consider
      (same) b2 where "couple_loop Equal at cr ks (r, b2) = (r', b')"
    | (hold) "couple_loop Equal at cr ks (?r2, b) = (r', b')"
    by (auto simp: Let_def split: if_splits)
  then show ?case
  proof cases
    case same
    then show ?thesis by (rule Cons.IH)
  next
    case hold
    from Cons.IH [OF hold] show ?thesis by (cases "d = k") auto
  qed
qed

lemma cancel_values_keeps:
  "dr_rest (cancel_values ks r d) = dr_rest (r d)
   \<and> (dr_values (cancel_values ks r d) = dr_values (r d)
      \<or> dr_values (cancel_values ks r d) = zeroMergeRange)"
proof (induction ks arbitrary: r)
  case Nil
  show ?case by simp
next
  case (Cons k ks)
  let ?r2 = "r(k := (r k)\<lparr>dr_values := zeroMergeRange\<rparr>)"
  have step: "cancel_values (k # ks) r = cancel_values ks ?r2" by simp
  have IH: "dr_rest (cancel_values ks ?r2 d) = dr_rest (?r2 d)
     \<and> (dr_values (cancel_values ks ?r2 d) = dr_values (?r2 d)
        \<or> dr_values (cancel_values ks ?r2 d) = zeroMergeRange)"
    by (rule Cons.IH)
  have a: "dr_rest (?r2 d) = dr_rest (r d)" by simp
  have b: "dr_values (?r2 d) = dr_values (r d) \<or> dr_values (?r2 d) = zeroMergeRange" by simp
  show ?case unfolding step using IH a b by metis
qed

lemma findMergeRange_propose_uses_bound:
  assumes "findMergeRange_propose Equal agg at bound maxSpan = Inr r"
  shows "r_invertedIndex r =
           map (\<lambda>ii. ii_findMergeRange ii bound maxSpan) (rotx_iis at)
           @ replicate (iisLen agg - length (rotx_iis at)) None"
    and "dr_rest (r_domain r d) = dr_rest (d_findMergeRange (rotx_d at d) bound maxSpan)"
    and "dr_values (r_domain r d) = dr_values (d_findMergeRange (rotx_d at d) bound maxSpan)
         \<or> dr_values (r_domain r d) = zeroMergeRange"
proof -
  let ?r0 = "\<lambda>id. d_findMergeRange (rotx_d at id) bound maxSpan"
  obtain rc bc where c: "couple_loop Equal at (?r0 CommitmentDomain) (domainIds agg) (?r0, False) = (rc, bc)"
    by (cases "couple_loop Equal at (?r0 CommitmentDomain) (domainIds agg) (?r0, False)")
  define r1 where "r1 = (if commitmentValuesTransform agg \<and> needMerge (dr_values (?r0 CommitmentDomain))
                then (if bc then cancel_values (domainIds agg) rc else rc) else ?r0)"
  from assms have r: "r = \<lparr>r_domain = r1,
        r_invertedIndex = map (\<lambda>ii. ii_findMergeRange ii bound maxSpan) (rotx_iis at)
                     @ replicate (iisLen agg - length (rotx_iis at)) None\<rparr>"
    by (auto simp: findMergeRange_propose_def Let_def c r1_def split: if_splits)
  show "r_invertedIndex r =
           map (\<lambda>ii. ii_findMergeRange ii bound maxSpan) (rotx_iis at)
           @ replicate (iisLen agg - length (rotx_iis at)) None"
    by (simp add: r)
  have k: "dr_rest (r1 d) = dr_rest (?r0 d)
      \<and> (dr_values (r1 d) = dr_values (?r0 d) \<or> dr_values (r1 d) = zeroMergeRange)"
    using couple_loop_keeps [OF c, of d] cancel_values_keeps [of "domainIds agg" rc d]
    by (auto simp: r1_def)
  show "dr_rest (r_domain r d) = dr_rest (d_findMergeRange (rotx_d at d) bound maxSpan)"
    using k by (simp add: r)
  show "dr_values (r_domain r d) = dr_values (d_findMergeRange (rotx_d at d) bound maxSpan)
         \<or> dr_values (r_domain r d) = zeroMergeRange"
    using k by (simp add: r)
qed

lemma findMergeRange_held:
  assumes "commitmentValuesTransform agg"
    and "\<not> Equal (files_LatestMergedRange (rotx_d at CommitmentDomain))
                 (files_LatestMergedRange (rotx_d at AccountsDomain))
         \<or> \<not> Equal (files_LatestMergedRange (rotx_d at CommitmentDomain))
                   (files_LatestMergedRange (rotx_d at StorageDomain))"
  shows "findMergeRange Equal agg at maxEndTxNum maxSpan =
     (if rotx_a at = None then Inl NilDereference
      else if StepSize agg = 0 then Inl DivideByZero
      else findMergeRange_propose Equal agg at
             (min maxEndTxNum
                (max (max (mr_to (files_LatestMergedRange (rotx_d at AccountsDomain)))
                          (mr_to (files_LatestMergedRange (rotx_d at StorageDomain))))
                     (mr_to (files_LatestMergedRange (rotx_d at CommitmentDomain)))))
             maxSpan)"
  using assms by (auto simp: findMergeRange_def Let_def go_div_def split: option.splits)

text \<open>
  Claim C1. On a handle of an aggregator with \<^verbatim>\<open>commitmentValuesTransform\<close>, when the
  latest merged ranges of Accounts, Storage and Commitment are not all equal (Commitment's
  differs from Accounts' or from Storage's, by \<^verbatim>\<open>MergeRange.Equal\<close>), the end bound is
  lowered to \<open>min maxEndTxNum (max accTo stoTo comTo)\<close>: on an open handle of an aggregator
  with a non-zero step size the call does what it does from the lowered bound on, and
  whenever it returns ranges, every inverted index's proposal and every domain's proposal
  was made with the lowered bound (a domain's values range is that proposal's or the
  empty one the coupling leaves).
\<close>

theorem findMergeRange_lowers_maxEndTxNum:
  assumes "commitmentValuesTransform agg"
    and "\<not> Equal (files_LatestMergedRange (rotx_d at CommitmentDomain))
                 (files_LatestMergedRange (rotx_d at AccountsDomain))
         \<or> \<not> Equal (files_LatestMergedRange (rotx_d at CommitmentDomain))
                   (files_LatestMergedRange (rotx_d at StorageDomain))"
    and "bound = min maxEndTxNum
                (max (max (mr_to (files_LatestMergedRange (rotx_d at AccountsDomain)))
                          (mr_to (files_LatestMergedRange (rotx_d at StorageDomain))))
                     (mr_to (files_LatestMergedRange (rotx_d at CommitmentDomain))))"
  shows "(rotx_a at \<noteq> None \<and> StepSize agg \<noteq> 0 \<longrightarrow>
            findMergeRange Equal agg at maxEndTxNum maxSpan
              = findMergeRange_propose Equal agg at bound maxSpan)
       \<and> (\<forall>r. findMergeRange Equal agg at maxEndTxNum maxSpan = Inr r \<longrightarrow>
            r_invertedIndex r =
              map (\<lambda>ii. ii_findMergeRange ii bound maxSpan) (rotx_iis at)
              @ replicate (iisLen agg - length (rotx_iis at)) None
          \<and> (\<forall>d. dr_rest (r_domain r d) = dr_rest (d_findMergeRange (rotx_d at d) bound maxSpan)
                \<and> (dr_values (r_domain r d) = dr_values (d_findMergeRange (rotx_d at d) bound maxSpan)
                   \<or> dr_values (r_domain r d) = zeroMergeRange)))"
proof -
  have held: "findMergeRange Equal agg at maxEndTxNum maxSpan =
     (if rotx_a at = None then Inl NilDereference
      else if StepSize agg = 0 then Inl DivideByZero
      else findMergeRange_propose Equal agg at bound maxSpan)"
    using assms findMergeRange_held [of agg Equal at maxEndTxNum maxSpan] by simp
  have first: "rotx_a at \<noteq> None \<and> StepSize agg \<noteq> 0 \<longrightarrow>
            findMergeRange Equal agg at maxEndTxNum maxSpan
              = findMergeRange_propose Equal agg at bound maxSpan"
    using held by simp
  have second: "r_invertedIndex r =
              map (\<lambda>ii. ii_findMergeRange ii bound maxSpan) (rotx_iis at)
              @ replicate (iisLen agg - length (rotx_iis at)) None
          \<and> (\<forall>d. dr_rest (r_domain r d) = dr_rest (d_findMergeRange (rotx_d at d) bound maxSpan)
                \<and> (dr_values (r_domain r d) = dr_values (d_findMergeRange (rotx_d at d) bound maxSpan)
                   \<or> dr_values (r_domain r d) = zeroMergeRange))"
    if ret: "findMergeRange Equal agg at maxEndTxNum maxSpan = Inr r" for r
  proof -
    from ret held have p: "findMergeRange_propose Equal agg at bound maxSpan = Inr r"
      by (auto split: if_splits)
    show ?thesis
      using findMergeRange_propose_uses_bound [OF p] by blast
  qed
  from first second show ?thesis by blast
qed


text \<open>
  When \<^verbatim>\<open>MergeRange.Equal\<close> is symmetric and transitive, the test of the code, that
  Commitment's range differs from Accounts' or from Storage's, says that the three ranges
  are not all equal.
\<close>

lemma ranges_not_all_equal:
  assumes "\<And>x y. Equal x y \<Longrightarrow> Equal y x" and "\<And>x y z. Equal x y \<Longrightarrow> Equal y z \<Longrightarrow> Equal x z"
  shows "(\<not> Equal lmrCom lmrAcc \<or> \<not> Equal lmrCom lmrSto)
       = (\<not> (Equal lmrAcc lmrSto \<and> Equal lmrSto lmrCom \<and> Equal lmrCom lmrAcc))"
  using assms by blast

lemma ex_rotx_latest:
  "files_LatestMergedRange (rotx_d ex_rotx CommitmentDomain) = \<lparr>needMerge = False, mr_from = 0, mr_to = 100\<rparr>"
  "files_LatestMergedRange (rotx_d ex_rotx AccountsDomain) = \<lparr>needMerge = False, mr_from = 0, mr_to = 200\<rparr>"
  "files_LatestMergedRange (rotx_d ex_rotx StorageDomain) = \<lparr>needMerge = False, mr_from = 0, mr_to = 200\<rparr>"
  by (simp_all add: ex_rotx_def ex_dom_def)

lemma ex_rotx_findMergeRange:
  "d_findMergeRange (rotx_d ex_rotx d) b s
     = \<lparr>dr_values = \<lparr>needMerge = False, mr_from = 0, mr_to = b\<rparr>, dr_rest = ()\<rparr>"
  by (simp add: ex_rotx_def ex_dom_def)

lemma ex_rotx_propose:
  "findMergeRange_propose ex_Equal ex_agg ex_rotx b s
     = Inr \<lparr>r_domain = (\<lambda>d. \<lparr>dr_values = \<lparr>needMerge = False, mr_from = 0, mr_to = b\<rparr>, dr_rest = ()\<rparr>),
            r_invertedIndex = []\<rparr>"
  by (simp add: findMergeRange_propose_def ex_rotx_findMergeRange) (simp add: ex_agg_def ex_rotx_def)

theorem findMergeRange_lowers_maxEndTxNum_witness:
  "commitmentValuesTransform ex_agg
   \<and> \<not> ex_Equal (files_LatestMergedRange (rotx_d ex_rotx CommitmentDomain))
                (files_LatestMergedRange (rotx_d ex_rotx AccountsDomain))
   \<and> rotx_a ex_rotx \<noteq> None \<and> StepSize ex_agg \<noteq> 0
   \<and> findMergeRange ex_Equal ex_agg ex_rotx 1000 5000
       = findMergeRange_propose ex_Equal ex_agg ex_rotx 200 5000
   \<and> (\<exists>r. findMergeRange ex_Equal ex_agg ex_rotx 1000 5000 = Inr r
          \<and> mr_to (dr_values (r_domain r AccountsDomain)) = 200
          \<and> r_invertedIndex r = [])"
proof -
  have h1: "commitmentValuesTransform ex_agg" by (simp add: ex_agg_def)
  have h2: "\<not> ex_Equal (files_LatestMergedRange (rotx_d ex_rotx CommitmentDomain))
                (files_LatestMergedRange (rotx_d ex_rotx AccountsDomain))"
    by (simp add: ex_rotx_latest ex_Equal_def)
  have h3: "(200 :: u64) = min 1000
                (max (max (mr_to (files_LatestMergedRange (rotx_d ex_rotx AccountsDomain)))
                          (mr_to (files_LatestMergedRange (rotx_d ex_rotx StorageDomain))))
                     (mr_to (files_LatestMergedRange (rotx_d ex_rotx CommitmentDomain))))"
    by (simp add: ex_rotx_latest)
  have h4: "rotx_a ex_rotx \<noteq> None \<and> StepSize ex_agg \<noteq> 0"
    by (simp add: ex_rotx_def ex_agg_def StepSize_def)
  have eq: "findMergeRange ex_Equal ex_agg ex_rotx 1000 5000
       = findMergeRange_propose ex_Equal ex_agg ex_rotx 200 5000"
    using findMergeRange_lowers_maxEndTxNum [of ex_agg ex_Equal ex_rotx 200 1000 5000] h1 h2 h3 h4
    by blast
  have ex: "\<exists>r. findMergeRange ex_Equal ex_agg ex_rotx 1000 5000 = Inr r
          \<and> mr_to (dr_values (r_domain r AccountsDomain)) = 200
          \<and> r_invertedIndex r = []"
    unfolding eq ex_rotx_propose by simp
  from h1 h2 h4 eq ex show ?thesis by blast
qed

section \<open>Prune\<close>

lemma CanPrune_none:
  assumes "\<forall>d \<in> set (domainIds agg). \<not> CanPruneUntil (rotx_d at d) tx untilTx"
    and "\<forall>ii \<in> set (rotx_iis at). \<not> ii_CanPrune ii tx"
  shows "\<not> CanPrune noPrune agg at tx untilTx"
  using assms by (simp add: CanPrune_def list_ex_iff)

lemma Prune_limit_zero:
  "Prune noPrune agg at tx 0 = Prune noPrune agg at tx 18446744073709551615"
  by (simp add: Prune_def)

lemma Prune_nothing:
  assumes "rotx_a at \<noteq> None"
    and "visibleFilesMinimaxTxNum agg = 0
         \<or> (StepSize agg \<noteq> 0 \<and> \<not> CanPrune noPrune agg at tx (visibleFilesMinimaxTxNum agg))"
  shows "Prune noPrune agg at tx limit = Inr ((None, None), tx)"
  using assms by (auto simp: Prune_def Let_def go_div_def split: option.splits)

text \<open>
  Claim C9. \<^verbatim>\<open>Prune\<close> with \<open>limit = 0\<close> is \<^verbatim>\<open>Prune\<close> with \<open>limit = 2^64 - 1\<close>: same
  result and same effect on the DB. On an open handle, when the visible-files minimax
  txNum is 0, or when (the step size not being zero) no domain and no inverted index can
  prune, \<^verbatim>\<open>Prune\<close> returns a nil statistic and a nil error and leaves the DB as it was.
\<close>

theorem Prune_unlimited_and_nothing_to_prune:
  "Prune noPrune agg at tx 0 = Prune noPrune agg at tx 18446744073709551615
   \<and> (rotx_a at \<noteq> None
       \<and> (visibleFilesMinimaxTxNum agg = 0
          \<or> (StepSize agg \<noteq> 0
             \<and> (\<forall>d \<in> set (domainIds agg).
                   \<not> CanPruneUntil (rotx_d at d) tx (visibleFilesMinimaxTxNum agg))
             \<and> (\<forall>ii \<in> set (rotx_iis at). \<not> ii_CanPrune ii tx)))
       \<longrightarrow> Prune noPrune agg at tx limit = Inr ((None, None), tx))"
proof (intro conjI impI)
  show "Prune noPrune agg at tx 0 = Prune noPrune agg at tx 18446744073709551615"
    by (rule Prune_limit_zero)
next
  assume h: "rotx_a at \<noteq> None
       \<and> (visibleFilesMinimaxTxNum agg = 0
          \<or> (StepSize agg \<noteq> 0
             \<and> (\<forall>d \<in> set (domainIds agg).
                   \<not> CanPruneUntil (rotx_d at d) tx (visibleFilesMinimaxTxNum agg))
             \<and> (\<forall>ii \<in> set (rotx_iis at). \<not> ii_CanPrune ii tx)))"
  then have op: "rotx_a at \<noteq> None" by simp
  from h have "visibleFilesMinimaxTxNum agg = 0
         \<or> (StepSize agg \<noteq> 0 \<and> \<not> CanPrune noPrune agg at tx (visibleFilesMinimaxTxNum agg))"
    using CanPrune_none [of agg at tx "visibleFilesMinimaxTxNum agg" noPrune] by blast
  with op show "Prune noPrune agg at tx limit = Inr ((None, None), tx)"
    by (rule Prune_nothing)
qed

lemma ex_rotx_d_Prune:
  "d_Prune (rotx_d ex_rotx d) tx step txFrom txTo limit = ((Some (min tx limit), None), tx - min tx limit)"
  "d_filenameBase (rotx_d ex_rotx d) = ex_domainString d"
  "CanPruneUntil (rotx_d ex_rotx d) tx untilTx = (0 < tx)"
  by (simp_all add: ex_rotx_def ex_dom_def)

lemma ex_agg_fields:
  "visibleFilesMinimaxTxNum ex_agg = 200" "StepSize ex_agg = 100" "iisLen ex_agg = 0"
  "domainIds ex_agg = [AccountsDomain, StorageDomain, CodeDomain, CommitmentDomain]"
  "commitmentValuesTransform ex_agg" "aggregationStep ex_agg = 100"
  by (simp_all add: ex_agg_def StepSize_def)

lemma ex_rotx_fields:
  "rotx_a ex_rotx = Some ()" "rotx_iis ex_rotx = []"
  by (simp_all add: ex_rotx_def)

theorem Prune_unlimited_and_nothing_to_prune_witness:
  "rotx_a ex_rotx \<noteq> None
   \<and> Prune False ex_agg ex_rotx 5000 0 = Prune False ex_agg ex_rotx 5000 18446744073709551615
   \<and> visibleFilesMinimaxTxNum (ex_agg\<lparr>visibleFilesMinimaxTxNum := 0\<rparr>) = 0
   \<and> Prune False (ex_agg\<lparr>visibleFilesMinimaxTxNum := 0\<rparr>) ex_rotx 5000 1000 = Inr ((None, None), 5000)
   \<and> StepSize ex_agg \<noteq> 0
   \<and> \<not> CanPruneUntil (rotx_d ex_rotx AccountsDomain) 0 (visibleFilesMinimaxTxNum ex_agg)
   \<and> rotx_iis ex_rotx = []
   \<and> Prune False ex_agg ex_rotx 0 1000 = Inr ((None, None), 0)"
proof -
  have a: "rotx_a ex_rotx \<noteq> None" by (simp add: ex_rotx_fields)
  have b: "visibleFilesMinimaxTxNum (ex_agg\<lparr>visibleFilesMinimaxTxNum := 0\<rparr>) = 0" by simp
  have c: "StepSize ex_agg \<noteq> 0" by (simp add: ex_agg_fields)
  have d: "\<forall>d \<in> set (domainIds ex_agg). \<not> CanPruneUntil (rotx_d ex_rotx d) 0 (visibleFilesMinimaxTxNum ex_agg)"
    by (simp add: ex_rotx_d_Prune)
  have e: "\<forall>ii \<in> set (rotx_iis ex_rotx). \<not> ii_CanPrune ii 0" by (simp add: ex_rotx_fields)
  note t1 = Prune_unlimited_and_nothing_to_prune [of False ex_agg ex_rotx 5000 1000]
  note t2 = Prune_unlimited_and_nothing_to_prune
      [of False "ex_agg\<lparr>visibleFilesMinimaxTxNum := 0\<rparr>" ex_rotx 5000 1000]
  note t3 = Prune_unlimited_and_nothing_to_prune [of False ex_agg ex_rotx 0 1000]
  from t1 have r1: "Prune False ex_agg ex_rotx 5000 0 = Prune False ex_agg ex_rotx 5000 18446744073709551615"
    by blast
  from t2 a b have r2: "Prune False (ex_agg\<lparr>visibleFilesMinimaxTxNum := 0\<rparr>) ex_rotx 5000 1000 = Inr ((None, None), 5000)"
    by blast
  from t3 a c d e have r3: "Prune False ex_agg ex_rotx 0 1000 = Inr ((None, None), 0)"
    by blast
  have f: "\<not> CanPruneUntil (rotx_d ex_rotx AccountsDomain) 0 (visibleFilesMinimaxTxNum ex_agg)"
    by (simp add: ex_rotx_d_Prune)
  have g: "rotx_iis ex_rotx = []" by (simp add: ex_rotx_fields)
  from a b c f g r1 r2 r3 show ?thesis by blast
qed

section \<open>PruneSmallBatches\<close>












section \<open>What merging logs\<close>

lemma isMergeLog_not_BuildStep: "isMergeLog ev \<Longrightarrow> \<not> isBuildStep ev"
  by (cases ev) simp_all

lemma findMergeRange_logged_isMergeLog:
  "list_all isMergeLog (findMergeRange_logged Equal agg at)"
  by (simp add: findMergeRange_logged_def Let_def)

lemma mergeFiles_isMergeLog:
  "list_all isMergeLog (fst (mergeFiles mops agg at outs r))"
  by (simp add: mergeFiles_def split: option.splits prod.splits)

lemma mergeLoopStep_isMergeLog:
  "list_all isMergeLog (fst (mergeLoopStep ops mops StateDomains a toTxNum))"
proof -
  obtain aggTx a1 where b: "BeginFilesRo ops a = (aggTx, a1)" by (cases "BeginFilesRo ops a")
  have m: "list_all isMergeLog evs" if "mergeFiles mops a1 aggTx outs r = (evs, res)"
    for outs r evs res
    using mergeFiles_isMergeLog [of mops a1 aggTx outs r] that by simp
  show ?thesis
    using findMergeRange_logged_isMergeLog [of "mr_Equal mops" a1 aggTx] m
    by (auto simp: mergeLoopStep_def b Let_def split: sum.splits prod.splits option.splits)
qed

lemma mergeLoop_iter_isMergeLog_aux:
  "mergeLoop_iter ops mops StateDomains acc a = Some y
   \<Longrightarrow> list_all isMergeLog acc \<longrightarrow> list_all isMergeLog (fst y)"
proof (induction ops mops StateDomains acc a y
    rule: mergeLoop_iter.raw_induct [rotated 1, consumes 1, case_names step])
  case (step iter ops mops StateDomains acc a y)
  obtain evs r where s: "mergeLoopStep ops mops StateDomains a (visibleFilesMinimaxTxNum a) = (evs, r)"
    by (cases "mergeLoopStep ops mops StateDomains a (visibleFilesMinimaxTxNum a)")
  from mergeLoopStep_isMergeLog [of ops mops StateDomains a "visibleFilesMinimaxTxNum a"] s
  have e: "list_all isMergeLog evs" by simp
  show ?case
  proof (cases r)
    case (Inl p)
    with step.hyps s e show ?thesis by auto
  next
    case (Inr x)
    obtain sm err a' where x: "x = ((sm, err), a')" by (metis prod.exhaust)
    show ?thesis
    proof (cases "err \<noteq> None \<or> \<not> sm")
      case True
      with step.hyps s e Inr x show ?thesis by (auto split: if_splits)
    next
      case False
      with step.hyps s Inr x have "iter ops mops StateDomains (acc @ evs) a' = Some y" by simp
      from step.IH [OF this] e show ?thesis by simp
    qed
  qed
qed

lemma mergeLoop_iter_isMergeLog:
  assumes "mergeLoop_iter ops mops StateDomains acc a = Some (evs, res)"
    and "list_all isMergeLog acc"
  shows "list_all isMergeLog evs"
  using mergeLoop_iter_isMergeLog_aux [OF assms(1)] assms(2) by simp

lemma MergeLoop_isMergeLog:
  assumes "MergeLoop noMerge ops mops StateDomains a = Some (evs, res)"
  shows "list_all isMergeLog evs"
proof (cases "noMerge \<or> mergingFiles a")
  case True
  with assms show ?thesis by (auto simp: MergeLoop_def)
next
  case False
  with assms obtain res' where
    "mergeLoop_iter ops mops StateDomains [] (a\<lparr>mergingFiles := True\<rparr>) = Some (evs, res')"
    by (auto simp: MergeLoop_def split: option.splits prod.splits sum.splits)
  from mergeLoop_iter_isMergeLog [OF this] show ?thesis by simp
qed

section \<open>The background build: which steps are built\<close>

lemma buildLoop_unfold:
  "buildLoop buildFiles step lastStep a =
     (if step < lastStep then
        (case buildFiles a step of
           (Some e, a') \<Rightarrow>
             if isCancel e then (([BuildStep step, CloseFin], a'), LoopReturned)
             else (([BuildStep step, LogWarn ''[snapshots] buildFilesInBackground'' e], a'), LoopBroke)
         | (None, a') \<Rightarrow>
             (case buildLoop buildFiles (step + 1) lastStep a' of
                ((tr, a''), ex) \<Rightarrow> ((BuildStep step # tr, a''), ex)))
      else (([], a), LoopDone))"
  by (rule buildLoop.simps)

lemma word_less_succ:
  fixes step bound :: u64
  assumes "step < bound"
  shows "step < step + 1" and "step \<le> step + 1"
proof -
  from unat_next_step [OF assms] show "step < step + 1" by (simp add: word_less_nat_alt)
  then show "step \<le> step + 1" by simp
qed

text \<open>Every step the loop calls \<^verbatim>\<open>buildFiles\<close> for lies between its first step and its bound.\<close>

lemma buildLoop_steps:
  assumes "buildLoop buildFiles step lastStep a = ((tr, a'), ex)"
    and "BuildStep s \<in> set tr"
  shows "step \<le> s \<and> s < lastStep"
  using assms
proof (induction buildFiles step lastStep a arbitrary: tr a' ex rule: buildLoop.induct)
  case (1 buildFiles step lastStep a)
  show ?case
  proof (cases "step < lastStep")
    case False
    with "1.prems" show ?thesis by (simp add: buildLoop_unfold [of buildFiles step lastStep a])
  next
    case lt: True
    obtain r a1 where bf: "buildFiles a step = (r, a1)" by (cases "buildFiles a step")
    show ?thesis
    proof (cases r)
      case (Some e)
      with "1.prems" lt bf have "s = step"
        by (auto simp: buildLoop_unfold [of buildFiles step lastStep a] split: if_splits)
      with lt show ?thesis by simp
    next
      case None
      obtain tr2 a2 ex2 where rec: "buildLoop buildFiles (step + 1) lastStep a1 = ((tr2, a2), ex2)"
        by (metis prod.exhaust)
      with "1.prems" lt bf None have tr: "tr = BuildStep step # tr2"
        by (simp add: buildLoop_unfold [of buildFiles step lastStep a])
      show ?thesis
      proof (cases "s = step")
        case True
        with lt show ?thesis by simp
      next
        case False
        with "1.prems"(2) tr have "BuildStep s \<in> set tr2" by simp
        from "1.IH" [OF lt bf [symmetric] None rec this]
        have "step + 1 \<le> s \<and> s < lastStep" .
        with word_less_succ(2) [OF lt] show ?thesis by (meson order_trans)
      qed
    qed
  qed
qed


text \<open>When no call of \<^verbatim>\<open>buildFiles\<close> fails, the loop builds every step below its bound.\<close>

lemma buildLoop_all_steps:
  assumes "\<forall>a s. fst (buildFiles a s) = None"
  shows "fst (fst (buildLoop buildFiles step lastStep a))
           = map (\<lambda>n. BuildStep (of_nat n)) [unat step..<unat lastStep]"
  using assms
proof (induction buildFiles step lastStep a rule: buildLoop.induct)
  case (1 buildFiles step lastStep a)
  show ?case
  proof (cases "step < lastStep")
    case False
    then have "unat lastStep \<le> unat step" by (simp add: word_less_nat_alt)
    with False show ?thesis by (simp add: buildLoop_unfold [of buildFiles step lastStep a])
  next
    case lt: True
    obtain r a1 where bf: "buildFiles a step = (r, a1)" by (cases "buildFiles a step")
    show ?thesis
    proof (cases r)
      case (Some e)
      with bf have "fst (buildFiles a step) \<noteq> None" by simp
      with "1.prems" show ?thesis by simp
    next
      case None
      from lt have lt': "unat step < unat lastStep" by (simp add: word_less_nat_alt)
      have upt: "[unat step..<unat lastStep] = unat step # [unat (step + 1)..<unat lastStep]"
        using lt' by (simp add: unat_next_step [OF lt] upt_conv_Cons)
      obtain tr2 a2 ex2 where rec: "buildLoop buildFiles (step + 1) lastStep a1 = ((tr2, a2), ex2)"
        by (metis prod.exhaust)
      from "1.IH" [OF lt bf [symmetric] None "1.prems"] rec
      have "tr2 = map (\<lambda>n. BuildStep (of_nat n)) [unat (step + 1)..<unat lastStep]" by simp
      with lt bf None rec show ?thesis
        by (simp add: buildLoop_unfold [of buildFiles step lastStep a] upt)
    qed
  qed
qed

lemma lastInDB_logged:
  assumes "ev \<in> set (snd (lastInDB View maxStepInDB maxStepInDBNoHistory))"
  shows "\<exists>e. ev = LogWarn ''[snapshots] lastIdInDB'' e"
  using assms
  by (auto simp: lastInDB_def lastIdInDB_def lastIdInDBNoHistory_def Let_def split: sum.splits)

lemma lastInDB_value:
  "fst (lastInDB View maxStepInDB maxStepInDBNoHistory) =
     max (max (max (fst (lastIdInDB View maxStepInDB AccountsDomain))
                   (fst (lastIdInDB View maxStepInDB CodeDomain)))
              (fst (lastIdInDB View maxStepInDB StorageDomain)))
         (fst (lastIdInDBNoHistory View maxStepInDBNoHistory CommitmentDomain))"
  by (simp add: lastInDB_def Let_def)

lemma lastInDB_views_open:
  assumes "View AccountsDomain = Inr ta" "View CodeDomain = Inr tc"
    "View StorageDomain = Inr ts" "View CommitmentDomain = Inr tm"
  shows "lastInDB View maxStepInDB maxStepInDBNoHistory =
      (Max {maxStepInDB AccountsDomain ta, maxStepInDB CodeDomain tc,
            maxStepInDB StorageDomain ts, maxStepInDBNoHistory CommitmentDomain tm}, [])"
  using assms
  by (simp add: lastInDB_def lastIdInDB_def lastIdInDBNoHistory_def Let_def max.commute
      max.left_commute max.assoc)

text \<open>The runs of the goroutine, by the way it ends.\<close>

lemma buildFilesJob_sema_failed:
  "buildFilesJob (Some (Some e)) View ms msnh bf noMerge ops mops sd step a
     = Some ([LogWarn ''[snapshots] buildFilesInBackground'' e, CloseFin],
             Inr (a\<lparr>buildingFiles := False\<rparr>))"
  by (simp add: buildFilesJob_def)

lemma buildFilesJob_sema_ok:
  assumes "sema = None \<or> sema = Some None"
    and "lastInDB View ms msnh = (lastStep, logged)"
  shows "buildFilesJob sema View ms msnh bf noMerge ops mops sd step a =
     (let info = logged @ [LogInfo ''BuildFilesInBackground'']
      in if \<not> lastStep > step then Some (info @ [CloseFin], Inr (a\<lparr>buildingFiles := False\<rparr>))
         else (case buildLoop bf step lastStep a of
                 ((tr, a'), LoopReturned) \<Rightarrow> Some (info @ tr, Inr (a'\<lparr>buildingFiles := False\<rparr>))
               | ((tr, a'), _) \<Rightarrow>
                   (case MergeLoop noMerge ops mops sd (a'\<lparr>buildingFiles := False\<rparr>) of
                      None \<Rightarrow> None
                    | Some (merged, Inl p) \<Rightarrow> Some (info @ tr @ merged @ [CloseFin], Inl p)
                    | Some (merged, Inr (merr, a'')) \<Rightarrow>
                        Some (info @ tr @ merged
                              @ (case merr of
                                   None \<Rightarrow> []
                                 | Some e \<Rightarrow> if isCancel e then []
                                             else [LogWarn ''[snapshots] merge'' e])
                              @ [CloseFin], Inr a''))))"
  using assms by (auto simp: buildFilesJob_def)

text \<open>
  A run that went on to merge: its events are those of the build, what \<^verbatim>\<open>MergeLoop\<close>
  logged, the warning of the goroutine for an error that is not a cancellation, and the
  closing of the channel.
\<close>

lemma buildFilesJob_merged:
  assumes ok: "sema = None \<or> sema = Some None"
    and L: "lastInDB View ms msnh = (lastStep, logged)"
    and lt: "step < lastStep"
    and loop: "buildLoop bf step lastStep a = ((tr0, a0), ex)"
    and ex: "ex \<noteq> LoopReturned"
    and m: "MergeLoop noMerge ops mops sd (a0\<lparr>buildingFiles := False\<rparr>) = Some (merged, res)"
  shows "buildFilesJob sema View ms msnh bf noMerge ops mops sd step a =
     Some (logged @ [LogInfo ''BuildFilesInBackground''] @ tr0 @ merged
           @ (case res of
                Inr (Some e, a1) \<Rightarrow> if isCancel e then [] else [LogWarn ''[snapshots] merge'' e]
              | _ \<Rightarrow> [])
           @ [CloseFin],
           (case res of Inl p \<Rightarrow> Inl p | Inr (merr, a1) \<Rightarrow> Inr a1))"
proof -
  note unfolded = buildFilesJob_sema_ok [OF ok L, of bf noMerge ops mops sd step a]
  show ?thesis
  proof (cases res)
    case (Inl p)
    with unfolded lt loop ex m show ?thesis by (cases ex) (simp_all add: Let_def)
  next
    case (Inr x)
    obtain merr a1 where x: "x = (merr, a1)" by (cases x)
    with Inr unfolded lt loop ex m show ?thesis
      by (cases ex; cases merr) (simp_all add: Let_def)
  qed
qed

lemma buildFilesJob_trace:
  assumes job: "buildFilesJob sema View ms msnh bf noMerge ops mops sd step a = Some (tr, a')"
    and L: "lastInDB View ms msnh = (lastStep, logged)"
  shows "(\<exists>e. sema = Some (Some e) \<and> tr = [LogWarn ''[snapshots] buildFilesInBackground'' e, CloseFin])
       \<or> ((sema = None \<or> sema = Some None) \<and> \<not> step < lastStep
           \<and> tr = logged @ [LogInfo ''BuildFilesInBackground'', CloseFin])
       \<or> ((sema = None \<or> sema = Some None) \<and> step < lastStep
           \<and> (\<exists>tr0 a0 ex more. buildLoop bf step lastStep a = ((tr0, a0), ex)
                 \<and> tr = logged @ [LogInfo ''BuildFilesInBackground''] @ tr0 @ more
                 \<and> \<not> list_ex isBuildStep more))"
proof (cases "\<exists>e. sema = Some (Some e)")
  case True
  then obtain e where "sema = Some (Some e)" by blast
  with job show ?thesis by (simp add: buildFilesJob_sema_failed)
next
  case False
  then have ok: "sema = None \<or> sema = Some None" by (cases sema) auto
  note unfolded = buildFilesJob_sema_ok [OF ok L, of bf noMerge ops mops sd step a]
  show ?thesis
  proof (cases "step < lastStep")
    case False
    with job unfolded ok show ?thesis by (auto simp: Let_def)
  next
    case lt: True
    obtain tr0 a0 ex where loop: "buildLoop bf step lastStep a = ((tr0, a0), ex)"
      by (metis prod.exhaust)
    show ?thesis
    proof (cases "ex = LoopReturned")
      case True
      with job unfolded lt loop have "tr = logged @ [LogInfo ''BuildFilesInBackground''] @ tr0 @ []"
        by (auto simp: Let_def)
      moreover have "\<not> list_ex isBuildStep []" by simp
      ultimately show ?thesis using ok lt loop by blast
    next
      case False
      have "MergeLoop noMerge ops mops sd (a0\<lparr>buildingFiles := False\<rparr>) \<noteq> None"
      proof
        assume "MergeLoop noMerge ops mops sd (a0\<lparr>buildingFiles := False\<rparr>) = None"
        with unfolded lt loop False have "buildFilesJob sema View ms msnh bf noMerge ops mops sd step a = None"
          by (cases ex) (simp_all add: Let_def)
        with job show False by simp
      qed
      then obtain merged res where
        m: "MergeLoop noMerge ops mops sd (a0\<lparr>buildingFiles := False\<rparr>) = Some (merged, res)"
        by (metis option.exhaust prod.exhaust)
      let ?own = "case res of
                Inr (Some e, a1) \<Rightarrow> if isCancel e then [] else [LogWarn ''[snapshots] merge'' e]
              | _ \<Rightarrow> []"
      from buildFilesJob_merged [OF ok L lt loop False m] job
      have t: "tr = logged @ [LogInfo ''BuildFilesInBackground''] @ tr0 @ (merged @ ?own @ [CloseFin])"
        by simp
      have "\<not> isBuildStep ev" if "ev \<in> set merged" for ev
        using MergeLoop_isMergeLog [OF m] that isMergeLog_not_BuildStep [of ev]
        by (auto simp: list_all_iff)
      moreover have "\<not> isBuildStep ev" if "ev \<in> set ?own" for ev
        using that by (auto split: sum.splits option.splits if_splits)
      ultimately have "\<not> list_ex isBuildStep (merged @ ?own @ [CloseFin])"
        by (auto simp: list_ex_iff)
      with ok lt loop t show ?thesis by blast
    qed
  qed
qed

text \<open>
  Claim C4. In the goroutine of \<^verbatim>\<open>BuildFilesInBackground\<close>, \<open>lastInDB\<close> is the maximum of
  what \<^verbatim>\<open>lastIdInDB\<close> gives for Accounts, Code and Storage and \<^verbatim>\<open>lastIdInDBNoHistory\<close>
  gives for Commitment; when the read views of the DB open, that is the maximum of the
  greatest steps the four domains report for the DB (\<^verbatim>\<open>maxStepInDB\<close>, and
  \<^verbatim>\<open>maxStepInDBNoHistory\<close> for Commitment). Every step the goroutine calls
  \<^verbatim>\<open>buildFiles\<close> for is at least the first step and below \<open>lastInDB\<close>; and when the
  semaphore is free and no call of \<^verbatim>\<open>buildFiles\<close> fails, the steps built are exactly
  the steps from the first one up to \<open>lastInDB\<close>, end excluded, in order.
\<close>

theorem lastInDB_bounds_the_build:
  "fst (lastInDB View maxStepInDB maxStepInDBNoHistory) =
     max (max (max (fst (lastIdInDB View maxStepInDB AccountsDomain))
                   (fst (lastIdInDB View maxStepInDB CodeDomain)))
              (fst (lastIdInDB View maxStepInDB StorageDomain)))
         (fst (lastIdInDBNoHistory View maxStepInDBNoHistory CommitmentDomain))
   \<and> (View AccountsDomain = Inr ta \<and> View CodeDomain = Inr tc
        \<and> View StorageDomain = Inr ts \<and> View CommitmentDomain = Inr tm \<longrightarrow>
        fst (lastInDB View maxStepInDB maxStepInDBNoHistory) =
          Max {maxStepInDB AccountsDomain ta, maxStepInDB CodeDomain tc,
               maxStepInDB StorageDomain ts, maxStepInDBNoHistory CommitmentDomain tm})
   \<and> (buildFilesJob sema View maxStepInDB maxStepInDBNoHistory buildFiles noMerge ops mops StateDomains
          step a
          = Some (tr, a')
        \<longrightarrow> (\<forall>s. BuildStep s \<in> set tr \<longrightarrow>
                step \<le> s \<and> s < fst (lastInDB View maxStepInDB maxStepInDBNoHistory))
          \<and> ((sema = None \<or> sema = Some None) \<and> (\<forall>a s. fst (buildFiles a s) = None) \<longrightarrow>
                filter isBuildStep tr =
                  map (\<lambda>n. BuildStep (of_nat n))
                    [unat step..<unat (fst (lastInDB View maxStepInDB maxStepInDBNoHistory))]))"
proof (intro conjI impI allI)
  show "fst (lastInDB View maxStepInDB maxStepInDBNoHistory) =
     max (max (max (fst (lastIdInDB View maxStepInDB AccountsDomain))
                   (fst (lastIdInDB View maxStepInDB CodeDomain)))
              (fst (lastIdInDB View maxStepInDB StorageDomain)))
         (fst (lastIdInDBNoHistory View maxStepInDBNoHistory CommitmentDomain))"
    by (rule lastInDB_value)
next
  assume "View AccountsDomain = Inr ta \<and> View CodeDomain = Inr tc
        \<and> View StorageDomain = Inr ts \<and> View CommitmentDomain = Inr tm"
  then show "fst (lastInDB View maxStepInDB maxStepInDBNoHistory) =
          Max {maxStepInDB AccountsDomain ta, maxStepInDB CodeDomain tc,
               maxStepInDB StorageDomain ts, maxStepInDBNoHistory CommitmentDomain tm}"
    using lastInDB_views_open [of View ta tc ts tm maxStepInDB maxStepInDBNoHistory] by simp
next
  fix s
  assume job: "buildFilesJob sema View maxStepInDB maxStepInDBNoHistory buildFiles noMerge ops mops StateDomains
          step a
          = Some (tr, a')"
    and s: "BuildStep s \<in> set tr"
  obtain lastStep logged where L: "lastInDB View maxStepInDB maxStepInDBNoHistory = (lastStep, logged)"
    by (cases "lastInDB View maxStepInDB maxStepInDBNoHistory")
  have nolog: "BuildStep s \<notin> set logged"
    using lastInDB_logged [of "BuildStep s" View maxStepInDB maxStepInDBNoHistory] L by auto
  from buildFilesJob_trace [OF job L] s nolog
  obtain tr0 a0 ex more where loop: "buildLoop buildFiles step lastStep a = ((tr0, a0), ex)"
    and t: "tr = logged @ [LogInfo ''BuildFilesInBackground''] @ tr0 @ more"
    and m: "\<not> list_ex isBuildStep more"
    by auto
  from m have "BuildStep s \<notin> set more" by (auto simp: list_ex_iff)
  with s t nolog have "BuildStep s \<in> set tr0" by auto
  from buildLoop_steps [OF loop this] L
  show "step \<le> s" and "s < fst (lastInDB View maxStepInDB maxStepInDBNoHistory)" by simp_all
next
  assume job: "buildFilesJob sema View maxStepInDB maxStepInDBNoHistory buildFiles noMerge ops mops StateDomains
          step a
          = Some (tr, a')"
    and h: "(sema = None \<or> sema = Some None) \<and> (\<forall>a s. fst (buildFiles a s) = None)"
  obtain lastStep logged where L: "lastInDB View maxStepInDB maxStepInDBNoHistory = (lastStep, logged)"
    by (cases "lastInDB View maxStepInDB maxStepInDBNoHistory")
  have nolog: "filter isBuildStep logged = []"
  proof -
    have "\<not> isBuildStep ev" if "ev \<in> set logged" for ev
      using lastInDB_logged [of ev View maxStepInDB maxStepInDBNoHistory] L that by auto
    then show ?thesis by (simp add: filter_empty_conv)
  qed
  from h have ok: "sema = None \<or> sema = Some None" and good: "\<forall>a s. fst (buildFiles a s) = None"
    by simp_all
  show "filter isBuildStep tr =
                  map (\<lambda>n. BuildStep (of_nat n))
                    [unat step..<unat (fst (lastInDB View maxStepInDB maxStepInDBNoHistory))]"
  proof (cases "step < lastStep")
    case False
    with buildFilesJob_trace [OF job L] ok have "tr = logged @ [LogInfo ''BuildFilesInBackground'', CloseFin]"
      by auto
    moreover from False have "unat lastStep \<le> unat step" by (simp add: word_less_nat_alt)
    ultimately show ?thesis using nolog L by simp
  next
    case True
    with buildFilesJob_trace [OF job L] ok
    obtain tr0 a0 ex more where loop: "buildLoop buildFiles step lastStep a = ((tr0, a0), ex)"
      and t: "tr = logged @ [LogInfo ''BuildFilesInBackground''] @ tr0 @ more"
      and m: "\<not> list_ex isBuildStep more"
      by auto
    from m have fm: "filter isBuildStep more = []" by (simp add: filter_empty_conv list_ex_iff)
    from buildLoop_all_steps [OF good, of step lastStep a] loop
    have tr0: "tr0 = map (\<lambda>n. BuildStep (of_nat n)) [unat step..<unat lastStep]" by simp
    have "filter isBuildStep tr0 = tr0" unfolding tr0 by (simp add: filter_map comp_def)
    with t nolog fm tr0 L show ?thesis by simp
  qed
qed


lemma ex_job_builds:
  "buildFilesJob None ex_View ex_maxStepInDB ex_maxStepInDB ex_buildFiles False ex_ops ex_merge
     ex_StateDomains 2 ex_agg_open
     = Some ([LogInfo ''BuildFilesInBackground'', BuildStep 2, BuildStep 3, BuildStep 4, CloseFin],
             Inr (ex_agg_open\<lparr>visibleFilesMinimaxTxNum := 500, aggRoTxAutoIncrement := 1\<rparr>))"
  by code_simp

theorem lastInDB_bounds_the_build_witness:
  "ex_View AccountsDomain = Inr () \<and> ex_View CodeDomain = Inr ()
   \<and> ex_View StorageDomain = Inr () \<and> ex_View CommitmentDomain = Inr ()
   \<and> fst (lastInDB ex_View ex_maxStepInDB ex_maxStepInDB) = Max {5, 3, 4, 4}
   \<and> buildFilesJob None ex_View ex_maxStepInDB ex_maxStepInDB ex_buildFiles False ex_ops ex_merge
        ex_StateDomains 2 ex_agg_open
       = Some ([LogInfo ''BuildFilesInBackground'', BuildStep 2, BuildStep 3, BuildStep 4, CloseFin],
               Inr (ex_agg_open\<lparr>visibleFilesMinimaxTxNum := 500, aggRoTxAutoIncrement := 1\<rparr>))
   \<and> BuildStep 3 \<in> set [LogInfo ''BuildFilesInBackground'', BuildStep 2, BuildStep 3, BuildStep 4, CloseFin]
   \<and> (2 :: u64) \<le> 3 \<and> 3 < fst (lastInDB ex_View ex_maxStepInDB ex_maxStepInDB)
   \<and> fst (ex_buildFiles ex_agg_open 7) = None
   \<and> filter isBuildStep [LogInfo ''BuildFilesInBackground'', BuildStep 2, BuildStep 3, BuildStep 4, CloseFin]
       = map (\<lambda>n. BuildStep (of_nat n)) [unat (2 :: u64)..<unat (fst (lastInDB ex_View ex_maxStepInDB ex_maxStepInDB))]"
proof -
  note t = lastInDB_bounds_the_build [of ex_View ex_maxStepInDB ex_maxStepInDB "()" "()" "()" "()"
      None ex_buildFiles False ex_ops ex_merge ex_StateDomains 2 ex_agg_open
      "[LogInfo ''BuildFilesInBackground'', BuildStep 2, BuildStep 3, BuildStep 4, CloseFin]"
      "Inr (ex_agg_open\<lparr>visibleFilesMinimaxTxNum := 500, aggRoTxAutoIncrement := 1\<rparr>)"]
  have v: "ex_View AccountsDomain = Inr () \<and> ex_View CodeDomain = Inr ()
   \<and> ex_View StorageDomain = Inr () \<and> ex_View CommitmentDomain = Inr ()"
    by (simp add: ex_View_def)
  have ok: "\<forall>(a :: nat Aggregator) s. fst (ex_buildFiles a s) = None" by (simp add: ex_buildFiles_def)
  have mem: "BuildStep 3 \<in> set [LogInfo ''BuildFilesInBackground'', BuildStep 2, BuildStep 3, BuildStep 4, CloseFin]"
    by simp
  from t v have "fst (lastInDB ex_View ex_maxStepInDB ex_maxStepInDB) =
      Max {ex_maxStepInDB AccountsDomain (), ex_maxStepInDB CodeDomain (),
           ex_maxStepInDB StorageDomain (), ex_maxStepInDB CommitmentDomain ()}"
    by blast
  then have m: "fst (lastInDB ex_View ex_maxStepInDB ex_maxStepInDB) = Max {5, 3, 4, 4}"
    by (simp add: ex_maxStepInDB_def)
  from t ex_job_builds mem have b: "(2 :: u64) \<le> 3 \<and> 3 < fst (lastInDB ex_View ex_maxStepInDB ex_maxStepInDB)"
    by blast
  from t ex_job_builds ok
  have f: "filter isBuildStep [LogInfo ''BuildFilesInBackground'', BuildStep 2, BuildStep 3, BuildStep 4, CloseFin]
       = map (\<lambda>n. BuildStep (of_nat n)) [unat (2 :: u64)..<unat (fst (lastInDB ex_View ex_maxStepInDB ex_maxStepInDB))]"
    by blast
  from ok have o: "fst (ex_buildFiles ex_agg_open 7) = None" by blast
  from v m ex_job_builds mem b o f show ?thesis by blast
qed

section \<open>Cancellation of a background job\<close>


text \<open>
  \<^verbatim>\<open>mergeFiles\<close> logs its warning for every error of its group, whatever the error is.
\<close>

lemma mergeFiles_failed:
  assumes "rotx_a at \<noteq> None" and "\<not> list_ex (\<lambda>rng. rng = None) (r_invertedIndex r)"
    and "errgroup_Wait mops at outs r (files agg) = ((mf, Some e), f1)"
  shows "mergeFiles mops agg at outs r
           = ([LogInfo ''[snapshots] merge state'', LogWarn ''[snapshots] state merge failed'' e],
              Inr ((mf, Some e), agg\<lparr>files := mf_Close mops mf f1\<rparr>))"
  using assms by (auto simp: mergeFiles_def)








section \<open>Close is idempotent\<close>

lemma AggregatorRoTx_Close_ctxCancel:
  "ctxCancel (fst (AggregatorRoTx_Close (agg, at))) = ctxCancel agg"
  by (simp add: AggregatorRoTx_Close_def Let_def split: option.splits)

lemma BeginFilesRo_ctxCancel:
  "ctxCancel (snd (BeginFilesRo ops a)) = ctxCancel a"
  by (simp add: BeginFilesRo_def Let_def split: prod.splits)

lemma recalcVisibleFiles_ctxCancel:
  assumes "recalcVisibleFiles ops StateDomains toTxNum a = Inr a'"
  shows "ctxCancel a' = ctxCancel a"
proof -
  let ?a0 = "a\<lparr>files := fold (\<lambda>i. idx_reCalcVisibleFiles ops i toTxNum) [0..<iisLen a]
                     (fold (\<lambda>k. dom_reCalcVisibleFiles ops k toTxNum) (domainIds a) (files a))\<rparr>"
  obtain aggTx a1 where b: "BeginFilesRo ops ?a0 = (aggTx, a1)" by (cases "BeginFilesRo ops ?a0")
  from BeginFilesRo_ctxCancel [of ops ?a0] b have c1: "ctxCancel a1 = ctxCancel a" by simp
  from assms b obtain v where
    "a' = fst (AggregatorRoTx_Close (a1\<lparr>visibleFilesMinimaxTxNum := v\<rparr>, Some aggTx))"
    by (auto simp: recalcVisibleFiles_def recalcVisibleFilesMinimaxTxNum_def split: sum.splits)
  then show ?thesis using c1 by (simp add: AggregatorRoTx_Close_ctxCancel)
qed

lemma Aggregator_Close_closed:
  assumes "Aggregator_Close ops StateDomains a = Inr a'"
  shows "ctxCancel a' = None"
proof (cases "ctxCancel a = None")
  case True
  with assms show ?thesis by (simp add: Aggregator_Close_def)
next
  case False
  let ?a3 = "closeDirtyFiles ops (a\<lparr>ctxDone := True, ctxCancel := None\<rparr>)"
  from assms False have "recalcVisibleFiles ops StateDomains (dirtyFilesEndTxNumMinimax ops ?a3) ?a3 = Inr a'"
    by (simp add: Aggregator_Close_def Let_def)
  from recalcVisibleFiles_ctxCancel [OF this] show ?thesis by (simp add: closeDirtyFiles_def)
qed

lemma AggregatorRoTx_Close_twice:
  "AggregatorRoTx_Close (AggregatorRoTx_Close s) = AggregatorRoTx_Close s"
proof (cases s)
  case (Pair agg at)
  show ?thesis
  proof (cases at)
    case None
    with Pair show ?thesis by (simp add: AggregatorRoTx_Close_def)
  next
    case (Some t)
    with Pair show ?thesis
      by (cases "rotx_a t") (simp_all add: AggregatorRoTx_Close_def Let_def)
  qed
qed

lemma AggregatorRoTx_Close_again:
  "(AggregatorRoTx_Close ^^ Suc n) s = AggregatorRoTx_Close s"
proof (induction n)
  case 0
  show ?case by simp
next
  case (Suc n)
  have "(AggregatorRoTx_Close ^^ Suc (Suc n)) s = AggregatorRoTx_Close ((AggregatorRoTx_Close ^^ Suc n) s)"
    by simp
  also have "\<dots> = AggregatorRoTx_Close (AggregatorRoTx_Close s)" by (simp only: Suc.IH)
  also have "\<dots> = AggregatorRoTx_Close s" by (rule AggregatorRoTx_Close_twice)
  finally show ?case .
qed

text \<open>
  Claim C7. When \<^verbatim>\<open>Aggregator.Close\<close> has returned, a further call returns the same
  aggregator with nothing changed, and so does \<^verbatim>\<open>Close\<close> on any aggregator whose
  \<^verbatim>\<open>ctxCancel\<close> is nil. \<^verbatim>\<open>AggregatorRoTx.Close\<close> on a nil handle changes nothing, on a
  handle closed before (its \<^verbatim>\<open>a\<close> is nil) changes nothing, and called twice or more
  leaves the aggregator and the handle as one call does. The methods of the domains and
  indices that the first call runs are arbitrary.
\<close>

theorem Close_idempotent:
  "(Aggregator_Close ops StateDomains a = Inr a1 \<longrightarrow>
      ctxCancel a1 = None \<and> Aggregator_Close ops StateDomains a1 = Inr a1)
   \<and> (ctxCancel a = None \<longrightarrow> Aggregator_Close ops StateDomains a = Inr a)
   \<and> AggregatorRoTx_Close (agg, None) = (agg, None)
   \<and> (rotx_a at = None \<longrightarrow> AggregatorRoTx_Close (agg, Some at) = (agg, Some at))
   \<and> AggregatorRoTx_Close (AggregatorRoTx_Close (agg, h)) = AggregatorRoTx_Close (agg, h)
   \<and> (AggregatorRoTx_Close ^^ Suc n) (agg, h) = AggregatorRoTx_Close (agg, h)
   \<and> (\<forall>agg2 at2. AggregatorRoTx_Close (agg, h) = (agg2, Some at2) \<longrightarrow> rotx_a at2 = None)"
proof (intro conjI impI allI)
  assume c: "Aggregator_Close ops StateDomains a = Inr a1"
  from Aggregator_Close_closed [OF c] show "ctxCancel a1 = None" .
  then show "Aggregator_Close ops StateDomains a1 = Inr a1" by (simp add: Aggregator_Close_def)
next
  assume "ctxCancel a = None"
  then show "Aggregator_Close ops StateDomains a = Inr a" by (simp add: Aggregator_Close_def)
next
  show "AggregatorRoTx_Close (agg, None) = (agg, None)" by (simp add: AggregatorRoTx_Close_def)
next
  assume "rotx_a at = None"
  then show "AggregatorRoTx_Close (agg, Some at) = (agg, Some at)"
    by (simp add: AggregatorRoTx_Close_def)
next
  show "AggregatorRoTx_Close (AggregatorRoTx_Close (agg, h)) = AggregatorRoTx_Close (agg, h)"
    by (rule AggregatorRoTx_Close_twice)
next
  show "(AggregatorRoTx_Close ^^ Suc n) (agg, h) = AggregatorRoTx_Close (agg, h)"
    by (rule AggregatorRoTx_Close_again)
next
  fix agg2 at2
  assume "AggregatorRoTx_Close (agg, h) = (agg2, Some at2)"
  then show "rotx_a at2 = None"
    by (auto simp: AggregatorRoTx_Close_def Let_def split: option.splits)
qed

lemma ex_Close_once:
  "Aggregator_Close ex_ops [AccountsDomain, StorageDomain] ex_agg_open
     = Inr (ex_agg_open\<lparr>ctxCancel := None, ctxDone := True, visibleFilesMinimaxTxNum := 200,
              aggRoTxAutoIncrement := 1, files := 5\<rparr>)"
  by code_simp

theorem Close_idempotent_witness:
  "Aggregator_Close ex_ops [AccountsDomain, StorageDomain] ex_agg_open
     = Inr (ex_agg_open\<lparr>ctxCancel := None, ctxDone := True, visibleFilesMinimaxTxNum := 200,
              aggRoTxAutoIncrement := 1, files := 5\<rparr>)
   \<and> Aggregator_Close ex_ops [AccountsDomain, StorageDomain]
        (ex_agg_open\<lparr>ctxCancel := None, ctxDone := True, visibleFilesMinimaxTxNum := 200,
              aggRoTxAutoIncrement := 1, files := 5\<rparr>)
     = Inr (ex_agg_open\<lparr>ctxCancel := None, ctxDone := True, visibleFilesMinimaxTxNum := 200,
              aggRoTxAutoIncrement := 1, files := 5\<rparr>)
   \<and> rotx_a (ex_rotx\<lparr>rotx_a := None\<rparr>) = None
   \<and> AggregatorRoTx_Close (ex_agg, Some (ex_rotx\<lparr>rotx_a := None\<rparr>)) = (ex_agg, Some (ex_rotx\<lparr>rotx_a := None\<rparr>))
   \<and> AggregatorRoTx_Close (ex_agg, Some ex_rotx)
       = (ex_agg\<lparr>leakDetector := {}\<rparr>, Some (ex_rotx\<lparr>rotx_a := None\<rparr>))
   \<and> AggregatorRoTx_Close (AggregatorRoTx_Close (ex_agg, Some ex_rotx))
       = (ex_agg\<lparr>leakDetector := {}\<rparr>, Some (ex_rotx\<lparr>rotx_a := None\<rparr>))"
proof -
  note t = Close_idempotent [of ex_ops "[AccountsDomain, StorageDomain]" ex_agg_open
      "ex_agg_open\<lparr>ctxCancel := None, ctxDone := True, visibleFilesMinimaxTxNum := 200,
              aggRoTxAutoIncrement := 1, files := 5\<rparr>" ex_agg "ex_rotx\<lparr>rotx_a := None\<rparr>" "Some ex_rotx" 0]
  have n: "rotx_a (ex_rotx\<lparr>rotx_a := None\<rparr>) = None" by simp
  have once: "AggregatorRoTx_Close (ex_agg, Some ex_rotx)
       = (ex_agg\<lparr>leakDetector := {}\<rparr>, Some (ex_rotx\<lparr>rotx_a := None\<rparr>))"
    by (simp add: AggregatorRoTx_Close_def ex_rotx_fields ex_agg_fields Let_def)
       (simp add: ex_rotx_def ex_dom_def ex_agg_def)
  from t ex_Close_once
  have r1: "Aggregator_Close ex_ops [AccountsDomain, StorageDomain]
        (ex_agg_open\<lparr>ctxCancel := None, ctxDone := True, visibleFilesMinimaxTxNum := 200,
              aggRoTxAutoIncrement := 1, files := 5\<rparr>)
     = Inr (ex_agg_open\<lparr>ctxCancel := None, ctxDone := True, visibleFilesMinimaxTxNum := 200,
              aggRoTxAutoIncrement := 1, files := 5\<rparr>)"
    by blast
  from t n have r2: "AggregatorRoTx_Close (ex_agg, Some (ex_rotx\<lparr>rotx_a := None\<rparr>))
      = (ex_agg, Some (ex_rotx\<lparr>rotx_a := None\<rparr>))"
    by blast
  from t have "AggregatorRoTx_Close (AggregatorRoTx_Close (ex_agg, Some ex_rotx))
       = AggregatorRoTx_Close (ex_agg, Some ex_rotx)" by blast
  with once have r3: "AggregatorRoTx_Close (AggregatorRoTx_Close (ex_agg, Some ex_rotx))
       = (ex_agg\<lparr>leakDetector := {}\<rparr>, Some (ex_rotx\<lparr>rotx_a := None\<rparr>))"
    by simp
  from ex_Close_once r1 n r2 once r3 show ?thesis by blast
qed

end
